theory Spec2Isabelle
  imports
    Main
    "HOL-Library.Char_ord"
    "HOL-Library.List_Lexorder"
    "HOL-Library.Multiset"
    "HOL-Library.AList"
begin

section \<open>JavaScript values\<close>

text \<open>
  The values that flow through \<^verbatim>\<open>utils/trainAndTest.js\<close>: sample inputs, labels, label
  arrays and classification results. Numbers are restricted to integers (labels and
  verbosity levels); an object is the list of its own properties in insertion order.

  The functions are given twice. First on values, where an array is the sequence of
  its elements and a classifier is a function from inputs to values: this reading
  gives what a run writes and returns. Then over a store of arrays, where \<^verbatim>\<open>sort()\<close>
  updates the array it is called on: this reading gives which arrays a run changes.
  The last section shows that the two readings write the same lines.
\<close>

datatype jsval =
    JUndefined
  | JNull
  | JBool bool
  | JNum int
  | JStr string
  | JArr "jsval list"
  | JObj "(string \<times> jsval) list"

datatype js_error = TypeError

text \<open>A sample \<^verbatim>\<open>{input: ..., output: ...}\<close> of a dataset.\<close>

record sample =
  input_val :: jsval
  output_val :: jsval

subsection \<open>Conversions of the language\<close>

text \<open>Truthiness, as tested by \<^verbatim>\<open>c ? a : b\<close>.\<close>

fun truthy :: "jsval \<Rightarrow> bool" where
  "truthy JUndefined = False"
| "truthy JNull = False"
| "truthy (JBool b) = b"
| "truthy (JNum n) = (n \<noteq> 0)"
| "truthy (JStr s) = (s \<noteq> [])"
| "truthy (JArr xs) = True"
| "truthy (JObj kvs) = True"

fun digits :: "nat \<Rightarrow> string" where
  "digits n =
     (if n < 10 then [''0123456789'' ! n]
      else digits (n div 10) @ [''0123456789'' ! (n mod 10)])"

declare digits.simps [simp del]

definition NumberToString :: "int \<Rightarrow> string" where
  "NumberToString n = (if n < 0 then ''-'' @ digits (nat (- n)) else digits (nat n))"

text \<open>\<^verbatim>\<open>Array.prototype.join\<close> on strings.\<close>

fun join :: "string \<Rightarrow> string list \<Rightarrow> string" where
  "join sep [] = []"
| "join sep [x] = x"
| "join sep (x # y # ys) = x @ sep @ join sep (y # ys)"

text \<open>
  \<^verbatim>\<open>ToString\<close>, the conversion applied by string concatenation and by the default
  comparison of \<^verbatim>\<open>Array.prototype.sort\<close>. An array is joined with commas, where
  \<^verbatim>\<open>undefined\<close> and \<^verbatim>\<open>null\<close> elements give the empty string.
\<close>

fun ToString :: "jsval \<Rightarrow> string" where
  "ToString JUndefined = ''undefined''"
| "ToString JNull = ''null''"
| "ToString (JBool b) = (if b then ''true'' else ''false'')"
| "ToString (JNum n) = NumberToString n"
| "ToString (JStr s) = s"
| "ToString (JArr xs) =
     join '','' (map (\<lambda>x. if x = JUndefined \<or> x = JNull then [] else ToString x) xs)"
| "ToString (JObj kvs) = ''[object Object]''"

subsection \<open>\<^verbatim>\<open>JSON.stringify\<close>\<close>

definition hex_digit :: "nat \<Rightarrow> char" where
  "hex_digit n = ''0123456789abcdef'' ! n"

text \<open>The escape of one character inside a JSON string literal.\<close>

definition quote_char :: "char \<Rightarrow> string" where
  "quote_char c =
     (if c = CHR 0x22 then [CHR 0x5C, CHR 0x22]
      else if c = CHR 0x5C then [CHR 0x5C, CHR 0x5C]
      else if c = CHR 0x08 then [CHR 0x5C, CHR ''b'']
      else if c = CHR 0x0C then [CHR 0x5C, CHR ''f'']
      else if c = CHR 0x0A then [CHR 0x5C, CHR ''n'']
      else if c = CHR 0x0D then [CHR 0x5C, CHR ''r'']
      else if c = CHR 0x09 then [CHR 0x5C, CHR ''t'']
      else if (of_char c :: nat) < 32
        then [CHR 0x5C, CHR ''u'', CHR ''0'', CHR ''0'',
              hex_digit (of_char c div 16), hex_digit (of_char c mod 16)]
      else [c])"

definition Quote :: "string \<Rightarrow> string" where
  "Quote s = [CHR 0x22] @ concat (map quote_char s) @ [CHR 0x22]"

text \<open>
  The brackets around the serialised members of an array or object: nothing between
  them when there is no member, the members on one line when the gap is empty, and
  one member per line, indented, otherwise.
\<close>

definition json_wrap :: "string \<Rightarrow> string \<Rightarrow> string \<Rightarrow> string \<Rightarrow> string list \<Rightarrow> string" where
  "json_wrap opening closing gap indent partial =
     (if partial = [] then opening @ closing
      else if gap = [] then opening @ join '','' partial @ closing
      else opening @ [CHR 0x0A] @ indent @ gap
           @ join ('','' @ [CHR 0x0A] @ indent @ gap) partial
           @ [CHR 0x0A] @ indent @ closing)"

text \<open>
  The serialisation of a value at indentation \<open>indent\<close>; \<open>None\<close> is the result
  \<^verbatim>\<open>undefined\<close>. Inside an array \<^verbatim>\<open>undefined\<close> is written \<^verbatim>\<open>null\<close>; a property whose
  value is \<^verbatim>\<open>undefined\<close> is left out.
\<close>

fun json_ser :: "string \<Rightarrow> string \<Rightarrow> jsval \<Rightarrow> string option" where
  "json_ser gap indent JUndefined = None"
| "json_ser gap indent JNull = Some ''null''"
| "json_ser gap indent (JBool b) = Some (if b then ''true'' else ''false'')"
| "json_ser gap indent (JNum n) = Some (NumberToString n)"
| "json_ser gap indent (JStr s) = Some (Quote s)"
| "json_ser gap indent (JArr xs) =
     Some (json_wrap ''['' '']'' gap indent
       (map (\<lambda>x. case json_ser gap (indent @ gap) x of None \<Rightarrow> ''null'' | Some s \<Rightarrow> s) xs))"
| "json_ser gap indent (JObj kvs) =
     Some (json_wrap ''{'' ''}'' gap indent
       (concat (map (\<lambda>kv. case json_ser gap (indent @ gap) (snd kv) of
                       None \<Rightarrow> []
                     | Some s \<Rightarrow> [Quote (fst kv) @ '':'' @ (if gap = [] then [] else '' '') @ s])
                  kvs)))"

text \<open>
  \<^verbatim>\<open>JSON.stringify(value, null, gap)\<close>; \<^verbatim>\<open>JSON.stringify(value)\<close> is the call with the
  empty gap.
\<close>

definition JSON_stringify :: "jsval \<Rightarrow> string \<Rightarrow> jsval" where
  "JSON_stringify v gap = (case json_ser gap [] v of None \<Rightarrow> JUndefined | Some s \<Rightarrow> JStr s)"

subsection \<open>Arrays\<close>

text \<open>The elements of an array value.\<close>

fun elements :: "jsval \<Rightarrow> jsval list" where
  "elements (JArr xs) = xs"
| "elements v = []"

text \<open>
  \<^verbatim>\<open>Array.prototype.sort()\<close> without a comparison function: \<^verbatim>\<open>undefined\<close> elements go
  to the end, the others are ordered by their \<^verbatim>\<open>ToString\<close> images, compared as
  sequences of code units; elements that compare equal keep their order.
\<close>

definition array_sort :: "jsval list \<Rightarrow> jsval list" where
  "array_sort xs =
     sort_key ToString (filter (\<lambda>x. x \<noteq> JUndefined) xs) @ filter (\<lambda>x. x = JUndefined) xs"

subsection \<open>The underscore library\<close>

definition isArray :: "jsval \<Rightarrow> bool" where
  "isArray v = (case v of JArr xs \<Rightarrow> True | _ \<Rightarrow> False)"

definition isString :: "jsval \<Rightarrow> bool" where
  "isString v = (case v of JStr s \<Rightarrow> True | _ \<Rightarrow> False)"

text \<open>
  \<^verbatim>\<open>_.isEqual\<close>, deep equality: arrays are equal when they have the same length and
  equal elements at every index, objects when they have the same number of properties
  and every property of the first has an equal value in the second, anything else
  when it is the same primitive value.
\<close>

fun isEqual :: "jsval \<Rightarrow> jsval \<Rightarrow> bool" where
  "isEqual (JArr xs) (JArr ys) = list_all2 isEqual xs ys"
| "isEqual (JObj a) (JObj b) =
     (list_all (\<lambda>kv. case map_of b (fst kv) of None \<Rightarrow> False | Some w \<Rightarrow> isEqual (snd kv) w) a
      \<and> length a = length b)"
| "isEqual a b = (a = b)"

section \<open>Label normalisation\<close>

definition stringifyClass :: "jsval \<Rightarrow> jsval" where
  "stringifyClass aClass = (if isString aClass then aClass else JSON_stringify aClass [])"

text \<open>
  \<^verbatim>\<open>normalizeClasses\<close> wraps a value that is not an array, maps \<^verbatim>\<open>stringifyClass\<close>
  over the elements (a new array) and sorts the new array.
\<close>

definition normalizeClasses :: "jsval \<Rightarrow> jsval" where
  "normalizeClasses expectedClasses =
     (let expectedClasses = (if \<not> isArray expectedClasses then JArr [expectedClasses]
                             else expectedClasses);
          expectedClasses = JArr (map stringifyClass (elements expectedClasses))
      in JArr (array_sort (elements expectedClasses)))"

section \<open>Collaborators\<close>

text \<open>
  Modelled from the spec: the statistics engine \<^verbatim>\<open>utils/PrecisionRecall.js\<close> and the
  merge \<^verbatim>\<open>hash.add\<close> of \<^verbatim>\<open>utils/hash.js\<close> are not part of the sources at hand. The
  specification gives their interface only: \<^verbatim>\<open>addCases(expected, actual,
  wantExplanations?)\<close> records one pair and returns the explanations of the case,
  \<^verbatim>\<open>calculateStats()\<close> finalises the accumulator, \<^verbatim>\<open>shortStats()\<close> and \<^verbatim>\<open>fullStats()\<close>
  read it, and a finalised summary can be merged additively into another accumulator.
  They are parameters here: \<open>'s\<close> is the state of an accumulator, \<open>'f\<close> a full summary,
  \<open>'h\<close> the accumulator of the macro sum. \<open>newPR\<close> is the state after
  \<^verbatim>\<open>new PrecisionRecall()\<close>; a call of \<open>addCases\<close> without its third argument passes
  \<open>False\<close>; \<open>console_dir\<close> is the text that \<^verbatim>\<open>console.dir\<close> prints for a summary.
\<close>

record ('s, 'f, 'h) recorder =
  newPR :: 's
  addCases :: "'s \<Rightarrow> jsval \<Rightarrow> jsval \<Rightarrow> bool \<Rightarrow> string list \<times> 's"
  calculateStats :: "'s \<Rightarrow> 's"
  shortStats :: "'s \<Rightarrow> string"
  fullStats :: "'s \<Rightarrow> 'f"
  hash_add :: "'h \<Rightarrow> 'f \<Rightarrow> 'h"
  console_dir :: "'f \<Rightarrow> string"

text \<open>
  A classifier is used through its method \<^verbatim>\<open>classify(input, explain)\<close>, a function of
  the input and of the optional second argument (\<open>None\<close> when the call passes one
  argument). A classifier class gives the two methods over the state \<open>'c\<close> of its
  instances. The levels \<^verbatim>\<open>verbosity\<close> and \<^verbatim>\<open>explain\<close> are integers, as the comments of the
  source document them; a level is truthy when it is not 0.
\<close>

type_synonym classifier = "jsval \<Rightarrow> int option \<Rightarrow> jsval"

record dataset =
  samples :: "sample list"
  allClasses :: "jsval list option"

record 'c classifier_class =
  trainBatch :: "'c \<Rightarrow> dataset \<Rightarrow> 'c"
  classify :: "'c \<Rightarrow> classifier"

section \<open>Property access and method calls on results\<close>

text \<open>
  \<^verbatim>\<open>r.classes\<close>: a \<^verbatim>\<open>TypeError\<close> on \<^verbatim>\<open>undefined\<close> and \<^verbatim>\<open>null\<close>, the property of an
  object, and \<^verbatim>\<open>undefined\<close> on an array or a primitive value.
\<close>

fun get_classes :: "jsval \<Rightarrow> js_error + jsval" where
  "get_classes JUndefined = Inl TypeError"
| "get_classes JNull = Inl TypeError"
| "get_classes (JObj kvs) =
     Inr (case map_of kvs ''classes'' of None \<Rightarrow> JUndefined | Some v \<Rightarrow> v)"
| "get_classes v = Inr JUndefined"

text \<open>
  \<^verbatim>\<open>v.sort()\<close>: only an array has the method; the call is a \<^verbatim>\<open>TypeError\<close> on every
  other value.
\<close>

fun call_sort :: "jsval \<Rightarrow> js_error + jsval" where
  "call_sort (JArr xs) = Inr (JArr (array_sort xs))"
| "call_sort v = Inl TypeError"

text \<open>
  The sort is in place: once the class array of a result \<open>r\<close> is sorted, \<open>r\<close> itself
  reads as the sorted array when it is that array, and as the object with the sorted
  array under \<^verbatim>\<open>classes\<close> when the array was unwrapped from it.
\<close>

definition after_sort :: "jsval \<Rightarrow> jsval \<Rightarrow> jsval" where
  "after_sort r sortedClasses =
     (case r of
        JObj kvs \<Rightarrow> JObj (AList.update ''classes'' sortedClasses kvs)
      | _ \<Rightarrow> sortedClasses)"

section \<open>\<^verbatim>\<open>testLite\<close>\<close>

text \<open>
  The body of the loop for one sample: the lines written and the pair handed to
  \<^verbatim>\<open>addCases\<close>, or the error that ends the run.
\<close>

definition testLite_sample ::
  "classifier \<Rightarrow> int \<Rightarrow> sample \<Rightarrow> js_error + (string list \<times> jsval \<times> jsval)" where
  "testLite_sample classifier explain smp =
     (let expectedClasses = normalizeClasses (output_val smp);
          actualClassesWithExplanations = classifier (input_val smp) (Some explain)
      in case get_classes actualClassesWithExplanations of
           Inl e \<Rightarrow> Inl e
         | Inr c \<Rightarrow>
             (let actualClasses = (if truthy c then c else actualClassesWithExplanations)
              in case call_sort actualClasses of
                   Inl e \<Rightarrow> Inl e
                 | Inr actualClasses \<Rightarrow>
                     Inr (if \<not> isEqual expectedClasses actualClasses
                          then [[CHR 0x09] @ ToString (JSON_stringify (input_val smp) [])
                                @ '': expected '' @ ToString expectedClasses
                                @ '' but got ''
                                @ (if explain \<noteq> 0
                                   then ToString (JSON_stringify
                                          (after_sort actualClassesWithExplanations actualClasses)
                                          [CHR 0x09])
                                   else ToString actualClasses)]
                          else [],
                          expectedClasses, actualClasses)))"

fun testLite_loop ::
  "('s, 'f, 'h) recorder \<Rightarrow> classifier \<Rightarrow> int \<Rightarrow> sample list \<Rightarrow> 's
     \<Rightarrow> string list \<times> (js_error + 's)" where
  "testLite_loop R classifier explain [] currentStats = ([], Inr currentStats)"
| "testLite_loop R classifier explain (smp # rest) currentStats =
     (case testLite_sample classifier explain smp of
        Inl e \<Rightarrow> ([], Inl e)
      | Inr (lines, expectedClasses, actualClasses) \<Rightarrow>
          (let currentStats = snd (addCases R currentStats expectedClasses actualClasses False);
               (out, r) = testLite_loop R classifier explain rest currentStats
           in (lines @ out, r)))"

text \<open>
  The console output of a run and its completion: \<^verbatim>\<open>undefined\<close> when the function
  returns, the error when it throws.
\<close>

definition testLite ::
  "('s, 'f, 'h) recorder \<Rightarrow> classifier \<Rightarrow> sample list \<Rightarrow> int
     \<Rightarrow> string list \<times> (js_error + jsval)" where
  "testLite R classifier dataset explain =
     (case testLite_loop R classifier explain dataset (newPR R) of
        (out, Inl e) \<Rightarrow> (out, Inl e)
      | (out, Inr currentStats) \<Rightarrow>
          (out @ [''SUMMARY: '' @ shortStats R (calculateStats R currentStats)],
           Inr JUndefined))"

section \<open>\<^verbatim>\<open>test\<close>\<close>

text \<open>
  The loop of \<^verbatim>\<open>test\<close>: the accumulator of the run, the caller's \<^verbatim>\<open>microAverage\<close> when
  one was passed, and the lines written.
\<close>

fun test_loop ::
  "('s, 'f, 'h) recorder \<Rightarrow> classifier \<Rightarrow> int \<Rightarrow> sample list \<Rightarrow> 's \<Rightarrow> 's option
     \<Rightarrow> 's \<times> 's option \<times> string list" where
  "test_loop R classifier verbosity [] currentStats microAverage =
     (currentStats, microAverage, [])"
| "test_loop R classifier verbosity (smp # rest) currentStats microAverage =
     (let expectedClasses = normalizeClasses (output_val smp);
          actualClasses = classifier (input_val smp) None;
          (explanations, currentStats) =
             addCases R currentStats expectedClasses actualClasses (verbosity > 2);
          line = (if verbosity > 1 \<and> length explanations > 0
                  then [[CHR 0x09] @ ToString (input_val smp) @ '': '' @ [CHR 0x0A]
                        @ join [CHR 0x0A] explanations]
                  else []);
          microAverage = (case microAverage of
                            None \<Rightarrow> None
                          | Some m \<Rightarrow> Some (snd (addCases R m expectedClasses actualClasses False)));
          (currentStats, microAverage, out) =
             test_loop R classifier verbosity rest currentStats microAverage
      in (currentStats, microAverage, line @ out))"

record ('s, 'h) test_result =
  returned :: 's
  microAverage_after :: "'s option"
  macroSum_after :: "'h option"
  console :: "string list"

definition test ::
  "('s, 'f, 'h) recorder \<Rightarrow> classifier \<Rightarrow> sample list \<Rightarrow> int \<Rightarrow> 's option \<Rightarrow> 'h option
     \<Rightarrow> ('s, 'h) test_result" where
  "test R classifier testSet verbosity microAverage macroSum =
     (let (currentStats, microAverage, out) =
             test_loop R classifier verbosity testSet (newPR R) microAverage;
          currentStats = calculateStats R currentStats;
          macroSum = (case macroSum of
                        None \<Rightarrow> None
                      | Some h \<Rightarrow> Some (hash_add R h (fullStats R currentStats)));
          summary = (if verbosity > 0
                     then (if verbosity > 2
                           then [''FULL RESULTS:'', console_dir R (fullStats R currentStats)]
                           else [])
                          @ [''SUMMARY: '' @ shortStats R currentStats]
                     else [])
      in \<lparr>returned = currentStats, microAverage_after = microAverage,
          macroSum_after = macroSum, console = out @ summary\<rparr>)"

section \<open>\<^verbatim>\<open>compare\<close>\<close>

text \<open>
  The body of the loop for one sample. The two accumulators that \<^verbatim>\<open>compare\<close> creates
  are never used, so the function needs no recorder.
\<close>

definition compare_sample ::
  "classifier \<Rightarrow> classifier \<Rightarrow> int \<Rightarrow> sample \<Rightarrow> js_error + string list" where
  "compare_sample classifier1 classifier2 explain smp =
     (let expectedClasses = normalizeClasses (output_val smp);
          actualClassesWithExplanations1 = classifier1 (input_val smp) (Some explain);
          actualClassesWithExplanations2 = classifier2 (input_val smp) (Some explain)
      in case (if explain \<noteq> 0 then get_classes actualClassesWithExplanations1
               else Inr actualClassesWithExplanations1) of
           Inl e \<Rightarrow> Inl e
         | Inr actualClasses1 \<Rightarrow>
     (case (if explain \<noteq> 0 then get_classes actualClassesWithExplanations2
            else Inr actualClassesWithExplanations2) of
           Inl e \<Rightarrow> Inl e
         | Inr actualClasses2 \<Rightarrow>
     (case call_sort actualClasses1 of
           Inl e \<Rightarrow> Inl e
         | Inr actualClasses1 \<Rightarrow>
     (case call_sort actualClasses2 of
           Inl e \<Rightarrow> Inl e
         | Inr actualClasses2 \<Rightarrow>
      Inr (if \<not> isEqual actualClasses1 actualClasses2
           then [[CHR 0x09] @ ToString (JSON_stringify (input_val smp) [])
                 @ '' : classes1=''
                 @ (if explain \<noteq> 0
                    then ToString (JSON_stringify
                           (after_sort actualClassesWithExplanations1 actualClasses1) [CHR 0x09])
                    else ToString actualClasses1)
                 @ '' ; classes2=''
                 @ (if explain \<noteq> 0
                    then ToString (JSON_stringify
                           (after_sort actualClassesWithExplanations2 actualClasses2) [CHR 0x09])
                    else ToString actualClasses2)
                 @ [],
                 if isEqual actualClasses1 expectedClasses
                 then [CHR 0x09, CHR 0x09] @ ''Classifier1 is correct''
                 else if isEqual actualClasses2 expectedClasses
                 then [CHR 0x09, CHR 0x09] @ ''Classifier2 is correct''
                 else [CHR 0x09, CHR 0x09] @ ''both are incorrect'']
           else [])))))"

fun compare_loop ::
  "classifier \<Rightarrow> classifier \<Rightarrow> int \<Rightarrow> sample list \<Rightarrow> string list \<times> js_error option" where
  "compare_loop classifier1 classifier2 explain [] = ([], None)"
| "compare_loop classifier1 classifier2 explain (smp # rest) =
     (case compare_sample classifier1 classifier2 explain smp of
        Inl e \<Rightarrow> ([], Some e)
      | Inr lines \<Rightarrow>
          (let (out, r) = compare_loop classifier1 classifier2 explain rest
           in (lines @ out, r)))"

definition compare ::
  "classifier \<Rightarrow> classifier \<Rightarrow> sample list \<Rightarrow> int \<Rightarrow> string list \<times> (js_error + jsval)" where
  "compare classifier1 classifier2 dataset explain =
     (case compare_loop classifier1 classifier2 explain dataset of
        (out, Some e) \<Rightarrow> (out, Inl e)
      | (out, None) \<Rightarrow> (out, Inr JUndefined))"

section \<open>\<^verbatim>\<open>trainAndCompare\<close>\<close>

text \<open>The training messages, written when \<^verbatim>\<open>verbosity > 0\<close>.\<close>

definition start_training :: "string \<Rightarrow> dataset \<Rightarrow> string" where
  "start_training prefix trainSet =
     prefix @ ''start training on '' @ NumberToString (int (length (samples trainSet)))
     @ '' samples, ''
     @ (case allClasses trainSet of
          None \<Rightarrow> []
        | Some cs \<Rightarrow> NumberToString (int (length cs)) @ '' classes'')"

definition end_training :: "dataset \<Rightarrow> int \<Rightarrow> string" where
  "end_training trainSet elapsedTime =
     ''end training on '' @ NumberToString (int (length (samples trainSet)))
     @ '' samples, ''
     @ (case allClasses trainSet of
          None \<Rightarrow> []
        | Some cs \<Rightarrow> NumberToString (int (length cs)) @ '' classes, '')
     @ NumberToString elapsedTime @ '' [ms]''"

text \<open>
  \<open>now k\<close> is the \<open>k\<close>-th reading of the clock by \<^verbatim>\<open>new Date()\<close>, in milliseconds; the
  function reads it four times.
\<close>

definition trainAndCompare ::
  "(nat \<Rightarrow> int) \<Rightarrow> 'a classifier_class \<Rightarrow> 'b classifier_class
     \<Rightarrow> (unit \<Rightarrow> 'a) \<Rightarrow> (unit \<Rightarrow> 'b) \<Rightarrow> dataset \<Rightarrow> sample list \<Rightarrow> int
     \<Rightarrow> string list \<times> (js_error + jsval)" where
  "trainAndCompare now K1 K2 createNewClassifier1Function createNewClassifier2Function
       trainSet testSet verbosity =
     (let classifier1 = createNewClassifier1Function ();
          classifier2 = createNewClassifier2Function ();
          out1 = (if verbosity > 0 then [start_training [CHR 0x0A] trainSet] else []);
          startTime = now 0;
          classifier1 = trainBatch K1 classifier1 trainSet;
          elapsedTime = now 1 - startTime;
          out2 = (if verbosity > 0 then [end_training trainSet elapsedTime] else []);
          out3 = (if verbosity > 0 then [start_training [] trainSet] else []);
          startTime = now 2;
          classifier2 = trainBatch K2 classifier2 trainSet;
          elapsedTime = now 3 - startTime;
          out4 = (if verbosity > 0 then [end_training trainSet elapsedTime] else []);
          (out, r) = compare (classify K1 classifier1) (classify K2 classifier2) testSet verbosity
      in (out1 @ out2 @ out3 @ out4 @ out, r))"

section \<open>The behaviour the specification describes\<close>

text \<open>
  A classification result in the form that the specification gives it: a bare array of
  labels, or an object whose property \<^verbatim>\<open>classes\<close> is an array.
\<close>

fun is_classification_result :: "jsval \<Rightarrow> bool" where
  "is_classification_result (JArr xs) = True"
| "is_classification_result (JObj kvs) =
     (case map_of kvs ''classes'' of Some (JArr xs) \<Rightarrow> True | _ \<Rightarrow> False)"
| "is_classification_result v = False"

text \<open>Unwrapping as the specification words it: \<^verbatim>\<open>.classes\<close> if present.\<close>

fun unwrap_classes :: "jsval \<Rightarrow> jsval" where
  "unwrap_classes (JObj kvs) =
     (case map_of kvs ''classes'' of Some c \<Rightarrow> c | None \<Rightarrow> JObj kvs)"
| "unwrap_classes v = v"

text \<open>
  \<^verbatim>\<open>testLite\<close> as the specification words it. For each sample the expected output is
  normalised and the unwrapped classes of the result are sorted; a mismatch line is
  written when the two sequences differ; every pair is recorded; the summary line
  follows the loop.
\<close>

definition lite_expected :: "sample \<Rightarrow> jsval" where
  "lite_expected smp = normalizeClasses (output_val smp)"

definition lite_actual :: "classifier \<Rightarrow> int \<Rightarrow> sample \<Rightarrow> jsval" where
  "lite_actual classifier explain smp =
     JArr (array_sort (elements (unwrap_classes (classifier (input_val smp) (Some explain)))))"

definition lite_mismatch_line :: "classifier \<Rightarrow> int \<Rightarrow> sample \<Rightarrow> string" where
  "lite_mismatch_line classifier explain smp =
     [CHR 0x09] @ ToString (JSON_stringify (input_val smp) [])
     @ '': expected '' @ ToString (lite_expected smp) @ '' but got ''
     @ (if explain \<noteq> 0
        then ToString (JSON_stringify
               (after_sort (classifier (input_val smp) (Some explain))
                  (lite_actual classifier explain smp)) [CHR 0x09])
        else ToString (lite_actual classifier explain smp))"

definition testLite_spec ::
  "('s, 'f, 'h) recorder \<Rightarrow> classifier \<Rightarrow> sample list \<Rightarrow> int
     \<Rightarrow> string list \<times> (js_error + jsval)" where
  "testLite_spec R classifier dataset explain =
     (concat (map (\<lambda>smp. if lite_expected smp \<noteq> lite_actual classifier explain smp
                          then [lite_mismatch_line classifier explain smp] else []) dataset)
      @ [''SUMMARY: '' @ shortStats R (calculateStats R
           (fold (\<lambda>smp st. snd (addCases R st (lite_expected smp)
                                   (lite_actual classifier explain smp) False))
              dataset (newPR R)))],
      Inr JUndefined)"

text \<open>
  The sorted class sequence of a result in \<^verbatim>\<open>compare\<close>: unwrapped when \<^verbatim>\<open>explain\<close> is
  truthy, then sorted.
\<close>

definition sorted_classes :: "int \<Rightarrow> jsval \<Rightarrow> js_error + jsval" where
  "sorted_classes explain r =
     (case (if explain \<noteq> 0 then get_classes r else Inr r) of
        Inl e \<Rightarrow> Inl e
      | Inr c \<Rightarrow> call_sort c)"

definition verdict_lines :: "string set" where
  "verdict_lines =
     {[CHR 0x09, CHR 0x09] @ ''Classifier1 is correct'',
      [CHR 0x09, CHR 0x09] @ ''Classifier2 is correct'',
      [CHR 0x09, CHR 0x09] @ ''both are incorrect''}"

text \<open>
  What \<^verbatim>\<open>compare\<close> reports for one sample, in the specification's words: nothing when the
  two sorted class sequences are equal, else the divergence line with both results and
  the verdict.
\<close>

definition divergence_line ::
  "classifier \<Rightarrow> classifier \<Rightarrow> int \<Rightarrow> sample \<Rightarrow> jsval \<Rightarrow> jsval \<Rightarrow> string" where
  "divergence_line classifier1 classifier2 explain smp a1 a2 =
     [CHR 0x09] @ ToString (JSON_stringify (input_val smp) [])
     @ '' : classes1=''
     @ (if explain \<noteq> 0
        then ToString (JSON_stringify
               (after_sort (classifier1 (input_val smp) (Some explain)) a1) [CHR 0x09])
        else ToString a1)
     @ '' ; classes2=''
     @ (if explain \<noteq> 0
        then ToString (JSON_stringify
               (after_sort (classifier2 (input_val smp) (Some explain)) a2) [CHR 0x09])
        else ToString a2)"

definition compare_report :: "classifier \<Rightarrow> classifier \<Rightarrow> int \<Rightarrow> sample \<Rightarrow> string list" where
  "compare_report classifier1 classifier2 explain smp =
     (case sorted_classes explain (classifier1 (input_val smp) (Some explain)) of
        Inl e \<Rightarrow> []
      | Inr a1 \<Rightarrow>
          (case sorted_classes explain (classifier2 (input_val smp) (Some explain)) of
             Inl e \<Rightarrow> []
           | Inr a2 \<Rightarrow>
               if isEqual a1 a2 then []
               else [divergence_line classifier1 classifier2 explain smp a1 a2,
                     if isEqual a1 (normalizeClasses (output_val smp))
                     then [CHR 0x09, CHR 0x09] @ ''Classifier1 is correct''
                     else if isEqual a2 (normalizeClasses (output_val smp))
                     then [CHR 0x09, CHR 0x09] @ ''Classifier2 is correct''
                     else [CHR 0x09, CHR 0x09] @ ''both are incorrect'']))"

section \<open>Instances for evaluation\<close>

text \<open>
  An accumulator that counts the cases and the exact matches; a full summary is the
  pair of counts and the macro sum adds them.
\<close>

definition counting_addCases ::
  "nat \<times> nat \<Rightarrow> jsval \<Rightarrow> jsval \<Rightarrow> bool \<Rightarrow> string list \<times> nat \<times> nat" where
  "counting_addCases st expected actual logTruePositives =
     (if isEqual expected actual
      then (if logTruePositives then [''ALL TRUE''] else [], (fst st + 1, snd st + 1))
      else ([''MISMATCH''], (fst st + 1, snd st)))"

definition counting_shortStats :: "nat \<times> nat \<Rightarrow> string" where
  "counting_shortStats st = digits (snd st) @ ''/'' @ digits (fst st)"

definition counting_recorder :: "(nat \<times> nat, nat \<times> nat, nat \<times> nat) recorder" where
  "counting_recorder =
     \<lparr>newPR = (0, 0), addCases = counting_addCases, calculateStats = id,
      shortStats = counting_shortStats, fullStats = id,
      hash_add = (\<lambda>h f. (fst h + fst f, snd h + snd f)),
      console_dir = counting_shortStats\<rparr>"

text \<open>An accumulator that keeps the pairs it was given, in order.\<close>

definition logging_addCases ::
  "(jsval \<times> jsval) list \<Rightarrow> jsval \<Rightarrow> jsval \<Rightarrow> bool \<Rightarrow> string list \<times> (jsval \<times> jsval) list" where
  "logging_addCases st expected actual logTruePositives = ([], st @ [(expected, actual)])"

definition logging_recorder ::
  "((jsval \<times> jsval) list, nat, nat) recorder" where
  "logging_recorder =
     \<lparr>newPR = [], addCases = logging_addCases, calculateStats = id,
      shortStats = (\<lambda>st. digits (length st)), fullStats = length,
      hash_add = (+), console_dir = digits\<rparr>"

text \<open>Classifiers with a fixed answer, bare or with explanations.\<close>

definition answers_A :: classifier where
  "answers_A inp explain = JArr [JStr ''A'']"

definition answers_B_A :: classifier where
  "answers_B_A inp explain = JArr [JStr ''B'', JStr ''A'']"

definition explains_A :: classifier where
  "explains_A inp explain =
     JObj [(''classes'', JArr [JStr ''A'']), (''explanations'', JStr ''why'')]"

definition explains_B_A :: classifier where
  "explains_B_A inp explain =
     JObj [(''classes'', JArr [JStr ''B'', JStr ''A'']), (''explanations'', JStr ''why'')]"

definition sample_x_A :: sample where
  "sample_x_A = \<lparr>input_val = JStr ''x'', output_val = JStr ''A''\<rparr>"

definition sample_y_AB :: sample where
  "sample_y_AB = \<lparr>input_val = JStr ''y'', output_val = JArr [JStr ''B'', JStr ''A'']\<rparr>"

section \<open>The functions over a store\<close>

text \<open>
  \<^verbatim>\<open>sort()\<close> reorders the array it is called on, so whoever holds that array sees the
  new order. To state which arrays the functions change, this section gives them again
  over an explicit store. The store holds the arrays, by address; their elements are
  labels, which the module never modifies and which stay values. A value that is
  handed around is a primitive value, the address of an array, or an object whose
  properties are such values. A new array takes the next free address.
\<close>

type_synonym addr = nat

type_synonym store = "jsval list list"

datatype rval =
    RUndefined
  | RNull
  | RBool bool
  | RNum int
  | RStr string
  | RArr addr
  | RObj "(string \<times> rval) list"

definition cell :: "store \<Rightarrow> addr \<Rightarrow> jsval list" where
  "cell h a = (if a < length h then h ! a else [])"

text \<open>The value that a stored value denotes in a store.\<close>

fun view :: "store \<Rightarrow> rval \<Rightarrow> jsval" where
  "view h RUndefined = JUndefined"
| "view h RNull = JNull"
| "view h (RBool b) = JBool b"
| "view h (RNum n) = JNum n"
| "view h (RStr s) = JStr s"
| "view h (RArr a) = JArr (cell h a)"
| "view h (RObj kvs) = JObj (map (\<lambda>kv. (fst kv, view h (snd kv))) kvs)"

definition alloc :: "store \<Rightarrow> jsval list \<Rightarrow> store \<times> addr" where
  "alloc h xs = (h @ [xs], length h)"

definition sort_in_place :: "store \<Rightarrow> addr \<Rightarrow> store" where
  "sort_in_place h a = h[a := array_sort (cell h a)]"

record stored_sample =
  input_of :: jsval
  output_of :: rval

type_synonym stored_classifier = "jsval \<Rightarrow> int option \<Rightarrow> rval"

fun truthy_st :: "rval \<Rightarrow> bool" where
  "truthy_st RUndefined = False"
| "truthy_st RNull = False"
| "truthy_st (RBool b) = b"
| "truthy_st (RNum n) = (n \<noteq> 0)"
| "truthy_st (RStr s) = (s \<noteq> [])"
| "truthy_st (RArr a) = True"
| "truthy_st (RObj kvs) = True"

fun isArray_st :: "rval \<Rightarrow> bool" where
  "isArray_st (RArr a) = True"
| "isArray_st v = False"

fun get_classes_st :: "rval \<Rightarrow> js_error + rval" where
  "get_classes_st RUndefined = Inl TypeError"
| "get_classes_st RNull = Inl TypeError"
| "get_classes_st (RObj kvs) =
     Inr (case map_of kvs ''classes'' of None \<Rightarrow> RUndefined | Some v \<Rightarrow> v)"
| "get_classes_st v = Inr RUndefined"

fun call_sort_st :: "store \<Rightarrow> rval \<Rightarrow> js_error + store" where
  "call_sort_st h (RArr a) = Inr (sort_in_place h a)"
| "call_sort_st h v = Inl TypeError"

text \<open>
  \<^verbatim>\<open>normalizeClasses\<close>: the literal \<^verbatim>\<open>[expectedClasses]\<close> and the call of \<^verbatim>\<open>map\<close> each make
  a new array; \<^verbatim>\<open>sort\<close> is called on the array that \<^verbatim>\<open>map\<close> made.
\<close>

definition normalizeClasses_st :: "store \<Rightarrow> rval \<Rightarrow> store \<times> rval" where
  "normalizeClasses_st h expectedClasses =
     (let (h, expectedClasses) =
            (if \<not> isArray_st expectedClasses
             then (let (h, a) = alloc h [view h expectedClasses] in (h, RArr a))
             else (h, expectedClasses));
          (h, a) = alloc h (map stringifyClass (elements (view h expectedClasses)));
          h = sort_in_place h a
      in (h, RArr a))"

text \<open>
  The body of the loop of \<^verbatim>\<open>testLite\<close> for one sample, from a store: the store it
  leaves, and the lines written with the pair handed to \<^verbatim>\<open>addCases\<close>, or the error
  thrown. The store is returned in both cases: what was allocated or sorted before a
  throw stays so.
\<close>

definition testLite_sample_st ::
  "stored_classifier \<Rightarrow> int \<Rightarrow> stored_sample \<Rightarrow> store
     \<Rightarrow> store \<times> (js_error + (string list \<times> jsval \<times> jsval))" where
  "testLite_sample_st classifier explain smp h =
     (let (h, expectedClasses) = normalizeClasses_st h (output_of smp);
          actualClassesWithExplanations = classifier (input_of smp) (Some explain)
      in case get_classes_st actualClassesWithExplanations of
           Inl e \<Rightarrow> (h, Inl e)
         | Inr c \<Rightarrow>
             (let actualClasses = (if truthy_st c then c else actualClassesWithExplanations)
              in case call_sort_st h actualClasses of
                   Inl e \<Rightarrow> (h, Inl e)
                 | Inr h \<Rightarrow>
                     (h,
                      Inr (if \<not> isEqual (view h expectedClasses) (view h actualClasses)
                           then [[CHR 0x09] @ ToString (JSON_stringify (input_of smp) [])
                                 @ '': expected '' @ ToString (view h expectedClasses)
                                 @ '' but got ''
                                 @ (if explain \<noteq> 0
                                    then ToString (JSON_stringify
                                           (view h actualClassesWithExplanations) [CHR 0x09])
                                    else ToString (view h actualClasses))]
                           else [],
                           view h expectedClasses, view h actualClasses))))"

text \<open>
  The run of \<^verbatim>\<open>testLite\<close> from a store: the store it leaves, the console output and the
  completion. A throw ends the run in the store that the failing sample left.
\<close>

fun testLite_loop_st ::
  "('s, 'f, 'h) recorder \<Rightarrow> stored_classifier \<Rightarrow> int \<Rightarrow> stored_sample list \<Rightarrow> store \<Rightarrow> 's
     \<Rightarrow> store \<times> string list \<times> (js_error + 's)" where
  "testLite_loop_st R classifier explain [] h currentStats = (h, [], Inr currentStats)"
| "testLite_loop_st R classifier explain (smp # rest) h currentStats =
     (case testLite_sample_st classifier explain smp h of
        (h', Inl e) \<Rightarrow> (h', [], Inl e)
      | (h', Inr (lines, expectedClasses, actualClasses)) \<Rightarrow>
          (let currentStats = snd (addCases R currentStats expectedClasses actualClasses False);
               (h'', out, r) = testLite_loop_st R classifier explain rest h' currentStats
           in (h'', lines @ out, r)))"

definition testLite_st ::
  "('s, 'f, 'h) recorder \<Rightarrow> stored_classifier \<Rightarrow> stored_sample list \<Rightarrow> int \<Rightarrow> store
     \<Rightarrow> store \<times> string list \<times> (js_error + jsval)" where
  "testLite_st R classifier dataset explain h =
     (case testLite_loop_st R classifier explain dataset h (newPR R) of
        (h', out, Inl e) \<Rightarrow> (h', out, Inl e)
      | (h', out, Inr currentStats) \<Rightarrow>
          (h', out @ [''SUMMARY: '' @ shortStats R (calculateStats R currentStats)],
           Inr JUndefined))"

text \<open>
  The body of the loop of \<^verbatim>\<open>compare\<close> for one sample, from a store. The four steps
  that can throw come in the order of the source: the two property accesses, then the
  sort of the first array, then the sort of the second. When the second sort throws,
  the first array has been sorted already and the store returned holds it sorted.
\<close>

definition compare_sample_st ::
  "stored_classifier \<Rightarrow> stored_classifier \<Rightarrow> int \<Rightarrow> stored_sample \<Rightarrow> store
     \<Rightarrow> store \<times> (js_error + string list)" where
  "compare_sample_st classifier1 classifier2 explain smp h =
     (let (h, expectedClasses) = normalizeClasses_st h (output_of smp);
          actualClassesWithExplanations1 = classifier1 (input_of smp) (Some explain);
          actualClassesWithExplanations2 = classifier2 (input_of smp) (Some explain)
      in case (if explain \<noteq> 0 then get_classes_st actualClassesWithExplanations1
               else Inr actualClassesWithExplanations1) of
           Inl e \<Rightarrow> (h, Inl e)
         | Inr actualClasses1 \<Rightarrow>
     (case (if explain \<noteq> 0 then get_classes_st actualClassesWithExplanations2
            else Inr actualClassesWithExplanations2) of
           Inl e \<Rightarrow> (h, Inl e)
         | Inr actualClasses2 \<Rightarrow>
     (case call_sort_st h actualClasses1 of
           Inl e \<Rightarrow> (h, Inl e)
         | Inr h1 \<Rightarrow>
     (case call_sort_st h1 actualClasses2 of
           Inl e \<Rightarrow> (h1, Inl e)
         | Inr h \<Rightarrow>
      (h,
       Inr (if \<not> isEqual (view h actualClasses1) (view h actualClasses2)
            then [[CHR 0x09] @ ToString (JSON_stringify (input_of smp) [])
                  @ '' : classes1=''
                  @ (if explain \<noteq> 0
                     then ToString (JSON_stringify
                            (view h actualClassesWithExplanations1) [CHR 0x09])
                     else ToString (view h actualClasses1))
                  @ '' ; classes2=''
                  @ (if explain \<noteq> 0
                     then ToString (JSON_stringify
                            (view h actualClassesWithExplanations2) [CHR 0x09])
                     else ToString (view h actualClasses2))
                  @ [],
                  if isEqual (view h actualClasses1) (view h expectedClasses)
                  then [CHR 0x09, CHR 0x09] @ ''Classifier1 is correct''
                  else if isEqual (view h actualClasses2) (view h expectedClasses)
                  then [CHR 0x09, CHR 0x09] @ ''Classifier2 is correct''
                  else [CHR 0x09, CHR 0x09] @ ''both are incorrect'']
            else []))))))"

fun compare_loop_st ::
  "stored_classifier \<Rightarrow> stored_classifier \<Rightarrow> int \<Rightarrow> stored_sample list \<Rightarrow> store
     \<Rightarrow> store \<times> string list \<times> js_error option" where
  "compare_loop_st classifier1 classifier2 explain [] h = (h, [], None)"
| "compare_loop_st classifier1 classifier2 explain (smp # rest) h =
     (case compare_sample_st classifier1 classifier2 explain smp h of
        (h', Inl e) \<Rightarrow> (h', [], Some e)
      | (h', Inr lines) \<Rightarrow>
          (let (h'', out, r) = compare_loop_st classifier1 classifier2 explain rest h'
           in (h'', lines @ out, r)))"

definition compare_st ::
  "stored_classifier \<Rightarrow> stored_classifier \<Rightarrow> stored_sample list \<Rightarrow> int \<Rightarrow> store
     \<Rightarrow> store \<times> string list \<times> (js_error + jsval)" where
  "compare_st classifier1 classifier2 dataset explain h =
     (case compare_loop_st classifier1 classifier2 explain dataset h of
        (h', out, Some e) \<Rightarrow> (h', out, Inl e)
      | (h', out, None) \<Rightarrow> (h', out, Inr JUndefined))"

text \<open>
  The address of the class array of a result: of the result itself when it is an
  array, of its property \<^verbatim>\<open>classes\<close> when the array is unwrapped from an object.
\<close>

fun class_array :: "rval \<Rightarrow> addr option" where
  "class_array (RArr a) = Some a"
| "class_array (RObj kvs) =
     (case map_of kvs ''classes'' of Some (RArr a) \<Rightarrow> Some a | _ \<Rightarrow> None)"
| "class_array v = None"

text \<open>
  The array that \<^verbatim>\<open>compare\<close> sorts: \<^verbatim>\<open>compare\<close> unwraps by the flag \<^verbatim>\<open>explain\<close>, so the
  array is the result itself when the flag is 0 and its property \<^verbatim>\<open>classes\<close> otherwise.
\<close>

fun compared_array :: "int \<Rightarrow> rval \<Rightarrow> addr option" where
  "compared_array explain (RArr a) = (if explain = 0 then Some a else None)"
| "compared_array explain (RObj kvs) =
     (if explain = 0 then None
      else (case map_of kvs ''classes'' of Some (RArr a) \<Rightarrow> Some a | _ \<Rightarrow> None))"
| "compared_array explain v = None"

text \<open>
  \<open>sorts_only as h h'\<close>: going from \<open>h\<close> to \<open>h'\<close>, every array of \<open>h\<close> whose address is in
  \<open>as\<close> has been sorted, every other array of \<open>h\<close> has its elements as before, and \<open>h'\<close>
  may hold new arrays.
\<close>

definition sorts_only :: "addr list \<Rightarrow> store \<Rightarrow> store \<Rightarrow> bool" where
  "sorts_only as h h' =
     (length h \<le> length h'
      \<and> list_all (\<lambda>a. cell h' a = (if a \<in> set as then array_sort (cell h a) else cell h a))
           [0..<length h])"

definition store_0 :: store where
  "store_0 = [[JStr ''B'', JStr ''A''], [JStr ''d'', JStr ''c'']]"

definition stored_sample_x :: stored_sample where
  "stored_sample_x = \<lparr>input_of = JStr ''x'', output_of = RArr 0\<rparr>"

definition returns_array_1 :: stored_classifier where
  "returns_array_1 inp explain = RArr 1"

definition explains_array_1 :: stored_classifier where
  "explains_array_1 inp explain = RObj [(''classes'', RArr 1), (''explanations'', RStr ''why'')]"

definition returns_output_array :: stored_classifier where
  "returns_output_array inp explain = RArr 0"

text \<open>
  A classifier class for evaluation: an instance counts the samples it was trained on
  and always answers with the labels of the class, as a bare array when \<^verbatim>\<open>explain\<close> is
  absent or 0 and with an explanation otherwise.
\<close>

definition fixed_class :: "jsval list \<Rightarrow> nat classifier_class" where
  "fixed_class labels =
     \<lparr>trainBatch = (\<lambda>n trainSet. n + length (samples trainSet)),
      classify = (\<lambda>n inp explain.
         if explain = None \<or> explain = Some 0 then JArr labels
         else JObj [(''classes'', JArr labels), (''explanations'', JNum (int n))])\<rparr>"

definition new_fixed :: "unit \<Rightarrow> nat" where
  "new_fixed u = 0"

definition clock_5 :: "nat \<Rightarrow> int" where
  "clock_5 k = 5 * int k"

definition train_xy :: dataset where
  "train_xy = \<lparr>samples = [sample_x_A, sample_y_AB], allClasses = Some [JStr ''A'', JStr ''B'']\<rparr>"

text \<open>The class arrays of the results that a run of \<^verbatim>\<open>testLite\<close> or \<^verbatim>\<open>compare\<close> receives.\<close>

definition class_arrays :: "stored_classifier \<Rightarrow> int \<Rightarrow> stored_sample list \<Rightarrow> addr list" where
  "class_arrays classifier explain dataset =
     concat (map (\<lambda>smp. case class_array (classifier (input_of smp) (Some explain)) of
                           Some a \<Rightarrow> [a] | None \<Rightarrow> []) dataset)"

definition compared_arrays ::
  "stored_classifier \<Rightarrow> stored_classifier \<Rightarrow> int \<Rightarrow> stored_sample list \<Rightarrow> addr list" where
  "compared_arrays classifier1 classifier2 explain dataset =
     concat (map (\<lambda>smp.
        (case compared_array explain (classifier1 (input_of smp) (Some explain)) of
           Some a \<Rightarrow> [a] | None \<Rightarrow> [])
        @ (case compared_array explain (classifier2 (input_of smp) (Some explain)) of
             Some a \<Rightarrow> [a] | None \<Rightarrow> [])) dataset)"

text \<open>
  The arrays that a run of \<^verbatim>\<open>testLite\<close> sorts, throws included. A sample whose result
  has no class array makes the run throw, at the property access or at the call of
  \<^verbatim>\<open>sort\<close>, before anything of that sample is sorted; the samples after it are not
  reached.
\<close>

fun sorted_by_testLite :: "stored_classifier \<Rightarrow> int \<Rightarrow> stored_sample list \<Rightarrow> addr list" where
  "sorted_by_testLite classifier explain [] = []"
| "sorted_by_testLite classifier explain (smp # rest) =
     (case class_array (classifier (input_of smp) (Some explain)) of
        None \<Rightarrow> []
      | Some a \<Rightarrow> a # sorted_by_testLite classifier explain rest)"

text \<open>
  Whether the unwrapping step of \<^verbatim>\<open>compare\<close> returns: the property access throws on
  \<^verbatim>\<open>undefined\<close> and \<^verbatim>\<open>null\<close> when \<^verbatim>\<open>explain\<close> is truthy.
\<close>

definition unwraps :: "int \<Rightarrow> rval \<Rightarrow> bool" where
  "unwraps explain r = (explain = 0 \<or> (r \<noteq> RUndefined \<and> r \<noteq> RNull))"

text \<open>
  The arrays that a run of \<^verbatim>\<open>compare\<close> sorts, throws included. In a sample both
  results are unwrapped before the first sort: when one of the property accesses
  throws, nothing of the sample is sorted; when the first value is no array, the first
  sort throws; when only the second is no array, the first array is sorted and the
  second sort throws. The samples after a throw are not reached.
\<close>

fun sorted_by_compare ::
  "stored_classifier \<Rightarrow> stored_classifier \<Rightarrow> int \<Rightarrow> stored_sample list \<Rightarrow> addr list" where
  "sorted_by_compare classifier1 classifier2 explain [] = []"
| "sorted_by_compare classifier1 classifier2 explain (smp # rest) =
     (if \<not> (unwraps explain (classifier1 (input_of smp) (Some explain))
             \<and> unwraps explain (classifier2 (input_of smp) (Some explain)))
      then []
      else (case compared_array explain (classifier1 (input_of smp) (Some explain)) of
              None \<Rightarrow> []
            | Some a1 \<Rightarrow>
                (case compared_array explain (classifier2 (input_of smp) (Some explain)) of
                   None \<Rightarrow> [a1]
                 | Some a2 \<Rightarrow> a1 # a2 # sorted_by_compare classifier1 classifier2 explain rest)))"

definition returns_string :: stored_classifier where
  "returns_string inp explain = RStr ''s''"

text \<open>
  Reading a stored classifier and a stored sample by value in a store: the classifier
  and the sample of the first sections that they denote.
\<close>

definition by_value :: "store \<Rightarrow> stored_classifier \<Rightarrow> classifier" where
  "by_value h classifier inp explain = view h (classifier inp explain)"

definition sample_value :: "store \<Rightarrow> stored_sample \<Rightarrow> sample" where
  "sample_value h smp = \<lparr>input_val = input_of smp, output_val = view h (output_of smp)\<rparr>"

text \<open>A stored value that holds no address.\<close>

fun plain :: "rval \<Rightarrow> bool" where
  "plain (RArr a) = False"
| "plain (RObj kvs) = False"
| "plain v = True"

text \<open>
  A result whose only array is its class array, at an address of the store: an array,
  or an object with distinct property names whose \<^verbatim>\<open>classes\<close> is an array and whose other
  properties hold no address.
\<close>

fun simple_result :: "store \<Rightarrow> rval \<Rightarrow> bool" where
  "simple_result h (RArr a) = (a < length h)"
| "simple_result h (RObj kvs) =
     (distinct (map fst kvs)
      \<and> (case map_of kvs ''classes'' of Some (RArr a) \<Rightarrow> a < length h | _ \<Rightarrow> False)
      \<and> list_all (\<lambda>kv. fst kv = ''classes'' \<or> plain (snd kv)) kvs)"
| "simple_result h v = False"

text \<open>An expected output that is an array of the store or holds no address.\<close>

fun simple_output :: "store \<Rightarrow> rval \<Rightarrow> bool" where
  "simple_output h (RArr a) = (a < length h)"
| "simple_output h (RObj kvs) = False"
| "simple_output h v = True"

section \<open>Properties of normalisation\<close>

lemma stringifyClass_cases:
  "stringifyClass v = JUndefined \<or> (\<exists>s. stringifyClass v = JStr s)"
  by (simp add: stringifyClass_def JSON_stringify_def isString_def
      split: jsval.splits option.splits)

lemma stringifyClass_fixed:
  "v = JUndefined \<or> (\<exists>s. v = JStr s) \<Longrightarrow> stringifyClass v = v"
  by (auto simp: stringifyClass_def JSON_stringify_def isString_def)

lemma map_stringifyClass_fixed:
  "\<forall>v\<in>set xs. v = JUndefined \<or> (\<exists>s. v = JStr s) \<Longrightarrow> map stringifyClass xs = xs"
  by (induction xs) (simp_all add: stringifyClass_fixed)

lemma set_array_sort [simp]: "set (array_sort xs) = set xs"
  by (auto simp: array_sort_def)

lemma mset_array_sort [simp]: "mset (array_sort xs) = mset xs"
  by (simp add: array_sort_def)

text \<open>Sorting a sorted array changes nothing.\<close>

lemma array_sort_idem: "array_sort (array_sort xs) = array_sort xs"
proof -
  let ?A = "sort_key ToString (filter (\<lambda>x. x \<noteq> JUndefined) xs)"
  let ?B = "filter (\<lambda>x. x = JUndefined) xs"
  have A: "filter (\<lambda>x. x \<noteq> JUndefined) (?A @ ?B) = ?A"
    by (simp add: filter_sort)
  have B: "filter (\<lambda>x. x = JUndefined) (?A @ ?B) = ?B"
    by (simp add: filter_sort)
  have "sort_key ToString ?A = ?A"
    by (rule sort_key_id_if_sorted) simp
  with A B show ?thesis
    by (simp only: array_sort_def)
qed

lemma normalizeClasses_array:
  "normalizeClasses v =
     JArr (array_sort (map stringifyClass (if isArray v then elements v else [v])))"
  by (simp add: normalizeClasses_def Let_def)

text \<open>
  On strings the sort key is the string itself, so the sorted order of an array of
  strings depends on its elements only, not on their order.
\<close>

lemma sort_key_ToString_perm:
  assumes "mset xs = mset ys" and "\<forall>v\<in>set xs. \<exists>s. v = JStr s"
  shows "sort_key ToString xs = sort_key ToString ys"
proof (rule sort_key_inj_key_eq)
  show "mset xs = mset (sort_key ToString ys)"
    using assms(1) by simp
  show "inj_on ToString (set xs)"
  proof (rule inj_onI)
    fix a b
    assume "a \<in> set xs" "b \<in> set xs" "ToString a = ToString b"
    moreover from this assms(2) obtain s t where "a = JStr s" "b = JStr t"
      by blast
    ultimately show "a = b" by simp
  qed
  show "sorted (map ToString (sort_key ToString ys))"
    by simp
qed

lemma filter_undefined_perm:
  assumes "mset xs = mset ys"
  shows "filter (\<lambda>x. x = JUndefined) xs = filter (\<lambda>x. x = JUndefined) ys"
proof -
  have "filter (\<lambda>x. x = JUndefined) zs = replicate (count (mset zs) JUndefined) JUndefined"
    for zs
    by (induction zs) auto
  with assms show ?thesis by simp
qed

lemma array_sort_perm:
  assumes "mset xs = mset ys" and "\<forall>v\<in>set xs. v = JUndefined \<or> (\<exists>s. v = JStr s)"
  shows "array_sort xs = array_sort ys"
proof -
  have "mset (filter (\<lambda>x. x \<noteq> JUndefined) xs) = mset (filter (\<lambda>x. x \<noteq> JUndefined) ys)"
    using assms(1) by simp
  moreover have "\<forall>v\<in>set (filter (\<lambda>x. x \<noteq> JUndefined) xs). \<exists>s. v = JStr s"
    using assms(2) by auto
  ultimately have "sort_key ToString (filter (\<lambda>x. x \<noteq> JUndefined) xs)
      = sort_key ToString (filter (\<lambda>x. x \<noteq> JUndefined) ys)"
    by (rule sort_key_ToString_perm)
  then show ?thesis
    using filter_undefined_perm [OF assms(1)] by (simp add: array_sort_def)
qed

lemma normalizeClasses_mset:
  assumes "mset xs = mset ys"
  shows "normalizeClasses (JArr xs) = normalizeClasses (JArr ys)"
proof -
  have "mset (map stringifyClass xs) = mset (map stringifyClass ys)"
    using assms by (metis mset_map)
  moreover have "\<forall>v\<in>set (map stringifyClass xs). v = JUndefined \<or> (\<exists>s. v = JStr s)"
    using stringifyClass_cases by auto
  ultimately have "array_sort (map stringifyClass xs) = array_sort (map stringifyClass ys)"
    by (rule array_sort_perm)
  then show ?thesis
    by (simp add: normalizeClasses_array isArray_def)
qed

text \<open>
  C5. Label normalisation is idempotent: for every value \<open>x\<close>, a scalar label or an array
  of labels, normalising the normalised array gives that array again.
\<close>

theorem normalizeClasses_idempotent:
  "normalizeClasses (normalizeClasses x) = normalizeClasses x"
proof -
  define ys where "ys = map stringifyClass (if isArray x then elements x else [x])"
  have n: "normalizeClasses x = JArr (array_sort ys)"
    by (simp add: normalizeClasses_array ys_def)
  have "\<forall>v\<in>set (array_sort ys). v = JUndefined \<or> (\<exists>s. v = JStr s)"
    using stringifyClass_cases by (auto simp: ys_def)
  then have "map stringifyClass (array_sort ys) = array_sort ys"
    by (rule map_stringifyClass_fixed)
  then have "normalizeClasses (JArr (array_sort ys)) = JArr (array_sort (array_sort ys))"
    by (simp add: normalizeClasses_array isArray_def)
  then show ?thesis
    by (simp add: n array_sort_idem)
qed

theorem normalizeClasses_idempotent_witness:
  "normalizeClasses (normalizeClasses (JArr [JStr ''b'', JNum 10, JUndefined, JStr ''a'']))
     = normalizeClasses (JArr [JStr ''b'', JNum 10, JUndefined, JStr ''a''])
   \<and> normalizeClasses (JArr [JStr ''b'', JNum 10, JUndefined, JStr ''a''])
     = JArr [JStr ''10'', JStr ''a'', JStr ''b'', JUndefined]"
proof -
  have v: "normalizeClasses (JArr [JStr ''b'', JNum 10, JUndefined, JStr ''a''])
     = JArr [JStr ''10'', JStr ''a'', JStr ''b'', JUndefined]"
    by (simp add: normalizeClasses_def isArray_def isString_def stringifyClass_def
        array_sort_def JSON_stringify_def NumberToString_def digits.simps)
  show ?thesis
    using normalizeClasses_idempotent [of "JArr [JStr ''b'', JNum 10, JUndefined, JStr ''a'']"] v
    by simp
qed

text \<open>
  C6. Label normalisation does not depend on the order of its input: an array of labels
  and every permutation of it normalise to the same sorted sequence.
\<close>

theorem normalizeClasses_permutation:
  assumes "mset xs = mset ys"
  shows "normalizeClasses (JArr xs) = normalizeClasses (JArr ys)"
  using assms by (rule normalizeClasses_mset)

theorem normalizeClasses_permutation_witness:
  "mset [JStr ''b'', JNum 10, JStr ''a''] = mset [JNum 10, JStr ''a'', JStr ''b'']
   \<and> normalizeClasses (JArr [JStr ''b'', JNum 10, JStr ''a''])
       = normalizeClasses (JArr [JNum 10, JStr ''a'', JStr ''b''])
   \<and> normalizeClasses (JArr [JNum 10, JStr ''a'', JStr ''b''])
       = JArr [JStr ''10'', JStr ''a'', JStr ''b'']"
proof -
  have p: "mset [JStr ''b'', JNum 10, JStr ''a''] = mset [JNum 10, JStr ''a'', JStr ''b'']"
    by simp
  have v: "normalizeClasses (JArr [JNum 10, JStr ''a'', JStr ''b''])
       = JArr [JStr ''10'', JStr ''a'', JStr ''b'']"
    by (simp add: normalizeClasses_def isArray_def isString_def stringifyClass_def
        array_sort_def JSON_stringify_def NumberToString_def digits.simps)
  show ?thesis
    using p normalizeClasses_permutation [OF p] v by simp
qed

section \<open>Properties of \<^verbatim>\<open>test\<close>\<close>

text \<open>The accumulator of the run after the loop: every sample is recorded, in order.\<close>

lemma test_loop_stats:
  "fst (test_loop R classifier verbosity testSet st mi) =
     fold (\<lambda>smp st. snd (addCases R st (normalizeClasses (output_val smp))
                            (classifier (input_val smp) None) (verbosity > 2))) testSet st"
  by (induction testSet arbitrary: st mi) (simp_all add: Let_def split_beta)

lemma test_loop_micro:
  "fst (snd (test_loop R classifier verbosity testSet st mi)) =
     (case mi of
        None \<Rightarrow> None
      | Some m \<Rightarrow> Some (fold (\<lambda>smp m. snd (addCases R m (normalizeClasses (output_val smp))
                            (classifier (input_val smp) None) False)) testSet m))"
  by (induction testSet arbitrary: st mi) (simp_all add: Let_def split_beta split: option.splits)

lemma returned_test:
  "returned (test R classifier testSet verbosity mi ma) =
     calculateStats R (fst (test_loop R classifier verbosity testSet (newPR R) mi))"
  by (simp add: test_def Let_def split_beta)

lemma micro_test:
  "microAverage_after (test R classifier testSet verbosity mi ma) =
     fst (snd (test_loop R classifier verbosity testSet (newPR R) mi))"
  by (simp add: test_def Let_def split_beta)

lemma macro_test:
  "macroSum_after (test R classifier testSet verbosity mi ma) =
     map_option
       (\<lambda>h. hash_add R h (fullStats R (returned (test R classifier testSet verbosity mi ma))))
       ma"
  by (simp add: test_def Let_def split_beta split: option.splits)

text \<open>
  C1, as the code has it. On an empty test set \<^verbatim>\<open>test\<close> returns the finalised statistics
  of a fresh accumulator, into which no case was recorded, and writes no line for any
  sample. It writes nothing at all when \<^verbatim>\<open>verbosity\<close> is at most 0; when \<^verbatim>\<open>verbosity\<close>
  is positive it writes the summary line, after the full results when \<^verbatim>\<open>verbosity\<close>
  exceeds 2.
\<close>

theorem test_empty:
  "returned (test R classifier [] verbosity microAverage macroSum) = calculateStats R (newPR R)
   \<and> console (test R classifier [] verbosity microAverage macroSum) =
       (if verbosity \<le> 0 then []
        else if verbosity \<le> 2 then [''SUMMARY: '' @ shortStats R (calculateStats R (newPR R))]
        else [''FULL RESULTS:'', console_dir R (fullStats R (calculateStats R (newPR R))),
              ''SUMMARY: '' @ shortStats R (calculateStats R (newPR R))])"
  by (simp add: test_def Let_def)

theorem test_empty_witness:
  "returned (test counting_recorder answers_A [] 3 None None) = (0, 0)
   \<and> console (test counting_recorder answers_A [] 3 None None)
       = [''FULL RESULTS:'', ''0/0'', ''SUMMARY: 0/0'']"
  using test_empty [of counting_recorder answers_A 3 None None]
  by (simp add: counting_recorder_def counting_shortStats_def digits.simps)

text \<open>
  C1 as stated fails: with the empty test set and \<^verbatim>\<open>verbosity = 1\<close> the summary line is
  written.
\<close>

theorem test_empty_output_counterexample:
  "console (test counting_recorder answers_A [] 1 None None) = [''SUMMARY: 0/0'']
   \<and> console (test counting_recorder answers_A [] 1 None None) \<noteq> []"
  by (simp add: test_def counting_recorder_def counting_shortStats_def digits.simps)

text \<open>
  C2, as the code has it. \<^verbatim>\<open>test\<close> hands the value that \<^verbatim>\<open>classify\<close> returned to
  \<^verbatim>\<open>addCases\<close> as it is, without unwrapping: the returned statistics are the finalised
  accumulator into which, for every sample in order, the normalised expected output
  and the classifier's return value were recorded. A bare label sequence is recorded as
  that sequence, a structure with \<^verbatim>\<open>classes\<close> and \<^verbatim>\<open>explanations\<close> as the whole structure.
\<close>

theorem test_records_result:
  "returned (test R classifier testSet verbosity microAverage macroSum) =
     calculateStats R
       (fold (\<lambda>smp st. snd (addCases R st (normalizeClasses (output_val smp))
                               (classifier (input_val smp) None) (verbosity > 2)))
          testSet (newPR R))"
  by (simp add: returned_test test_loop_stats)

theorem test_records_result_witness:
  "returned (test logging_recorder answers_B_A [sample_x_A] 0 None None)
     = [(JArr [JStr ''A''], JArr [JStr ''B'', JStr ''A''])]"
  using test_records_result [of logging_recorder answers_B_A "[sample_x_A]" 0 None None]
  by (simp add: logging_recorder_def logging_addCases_def answers_B_A_def sample_x_A_def
      normalizeClasses_def isArray_def stringifyClass_def isString_def array_sort_def)

text \<open>
  C2 as stated fails: for a classifier that returns the structure
  \<^verbatim>\<open>{classes: ["A"], explanations: "why"}\<close> the value recorded as the actual label set is
  the structure, not the array \<^verbatim>\<open>["A"]\<close>.
\<close>

theorem test_unwrap_counterexample:
  "returned (test logging_recorder explains_A [sample_x_A] 0 None None)
     = [(JArr [JStr ''A''],
         JObj [(''classes'', JArr [JStr ''A'']), (''explanations'', JStr ''why'')])]
   \<and> returned (test logging_recorder explains_A [sample_x_A] 0 None None)
     \<noteq> [(JArr [JStr ''A''], JArr [JStr ''A''])]"
  by (simp add: test_def logging_recorder_def logging_addCases_def explains_A_def sample_x_A_def
      normalizeClasses_def isArray_def stringifyClass_def isString_def array_sort_def)

lemma fold_addCases_perm:
  assumes comm: "\<And>st e1 a1 e2 a2.
      snd (addCases R (snd (addCases R st e1 a1 f)) e2 a2 f)
        = snd (addCases R (snd (addCases R st e2 a2 f)) e1 a1 f)"
    and perm: "mset xs = mset ys"
  shows "fold (\<lambda>smp st. snd (addCases R st (ex smp) (ac smp) f)) xs
       = fold (\<lambda>smp st. snd (addCases R st (ex smp) (ac smp) f)) ys"
  by (rule fold_multiset_equiv [OF _ perm]) (simp add: fun_eq_iff comm)

lemma counting_commutes:
  "\<forall>st e1 a1 e2 a2 f.
      snd (addCases counting_recorder (snd (addCases counting_recorder st e1 a1 f)) e2 a2 f)
        = snd (addCases counting_recorder (snd (addCases counting_recorder st e2 a2 f)) e1 a1 f)"
  by (simp add: counting_recorder_def counting_addCases_def)

text \<open>
  C4. When the accumulation of cases is order-independent, that is when recording two
  cases in either order leaves the accumulator in the same state, \<^verbatim>\<open>test\<close> on a test set
  and on any permutation of it returns the same finalised statistics, and leaves the
  same \<^verbatim>\<open>microAverage\<close> and \<^verbatim>\<open>macroSum\<close>; only the console output depends on the order.
\<close>

theorem test_order_independent:
  assumes "\<forall>st e1 a1 e2 a2 f.
      snd (addCases R (snd (addCases R st e1 a1 f)) e2 a2 f)
        = snd (addCases R (snd (addCases R st e2 a2 f)) e1 a1 f)"
    and "mset testSet = mset shuffled"
  shows "returned (test R classifier testSet verbosity microAverage macroSum)
           = returned (test R classifier shuffled verbosity microAverage macroSum)
       \<and> microAverage_after (test R classifier testSet verbosity microAverage macroSum)
           = microAverage_after (test R classifier shuffled verbosity microAverage macroSum)
       \<and> macroSum_after (test R classifier testSet verbosity microAverage macroSum)
           = macroSum_after (test R classifier shuffled verbosity microAverage macroSum)"
proof -
  have c: "snd (addCases R (snd (addCases R st e1 a1 f)) e2 a2 f)
        = snd (addCases R (snd (addCases R st e2 a2 f)) e1 a1 f)" for st e1 a1 e2 a2 f
    using assms(1) by blast
  have r: "returned (test R classifier testSet verbosity microAverage macroSum)
           = returned (test R classifier shuffled verbosity microAverage macroSum)"
    by (simp only: returned_test test_loop_stats fold_addCases_perm [OF c assms(2)])
  have m: "microAverage_after (test R classifier testSet verbosity microAverage macroSum)
           = microAverage_after (test R classifier shuffled verbosity microAverage macroSum)"
    by (simp only: micro_test test_loop_micro fold_addCases_perm [OF c assms(2)])
  have "macroSum_after (test R classifier testSet verbosity microAverage macroSum)
           = macroSum_after (test R classifier shuffled verbosity microAverage macroSum)"
    by (simp only: macro_test r)
  with r m show ?thesis by simp
qed

theorem test_order_independent_witness:
  "mset [sample_x_A, sample_y_AB] = mset [sample_y_AB, sample_x_A]
   \<and> returned (test counting_recorder answers_A [sample_x_A, sample_y_AB] 2
                 (Some (3, 1)) (Some (0, 0)))
       = returned (test counting_recorder answers_A [sample_y_AB, sample_x_A] 2
                     (Some (3, 1)) (Some (0, 0)))
   \<and> returned (test counting_recorder answers_A [sample_y_AB, sample_x_A] 2
                 (Some (3, 1)) (Some (0, 0)))
       = (2, 1)"
proof -
  have p: "mset [sample_x_A, sample_y_AB] = mset [sample_y_AB, sample_x_A]"
    by simp
  have v: "returned (test counting_recorder answers_A [sample_y_AB, sample_x_A] 2
                       (Some (3, 1)) (Some (0, 0)))
       = (2, 1)"
    by (simp add: returned_test test_loop_stats counting_recorder_def counting_addCases_def
        answers_A_def sample_x_A_def sample_y_AB_def
        normalizeClasses_def isArray_def stringifyClass_def isString_def array_sort_def)
  show ?thesis
    using test_order_independent
            [OF counting_commutes p, of answers_A 2 "Some (3, 1)" "Some (0, 0)"] p v
    by simp
qed

section \<open>Properties of \<^verbatim>\<open>compare\<close>\<close>

lemma compare_sample_sorted:
  assumes "sorted_classes explain (classifier1 (input_val smp) (Some explain)) = Inr a1"
    and "sorted_classes explain (classifier2 (input_val smp) (Some explain)) = Inr a2"
  shows "compare_sample classifier1 classifier2 explain smp =
     Inr (if \<not> isEqual a1 a2
          then [[CHR 0x09] @ ToString (JSON_stringify (input_val smp) [])
                @ '' : classes1=''
                @ (if explain \<noteq> 0
                   then ToString (JSON_stringify
                          (after_sort (classifier1 (input_val smp) (Some explain)) a1) [CHR 0x09])
                   else ToString a1)
                @ '' ; classes2=''
                @ (if explain \<noteq> 0
                   then ToString (JSON_stringify
                          (after_sort (classifier2 (input_val smp) (Some explain)) a2) [CHR 0x09])
                   else ToString a2),
                if isEqual a1 (normalizeClasses (output_val smp))
                then [CHR 0x09, CHR 0x09] @ ''Classifier1 is correct''
                else if isEqual a2 (normalizeClasses (output_val smp))
                then [CHR 0x09, CHR 0x09] @ ''Classifier2 is correct''
                else [CHR 0x09, CHR 0x09] @ ''both are incorrect'']
          else [])"
proof -
  let ?r1 = "classifier1 (input_val smp) (Some explain)"
  let ?r2 = "classifier2 (input_val smp) (Some explain)"
  from assms(1) obtain c1
    where u1: "(if explain \<noteq> 0 then get_classes ?r1 else Inr ?r1) = Inr c1"
      and s1: "call_sort c1 = Inr a1"
    by (auto simp: sorted_classes_def split: sum.splits)
  from assms(2) obtain c2
    where u2: "(if explain \<noteq> 0 then get_classes ?r2 else Inr ?r2) = Inr c2"
      and s2: "call_sort c2 = Inr a2"
    by (auto simp: sorted_classes_def split: sum.splits)
  show ?thesis
    unfolding compare_sample_def Let_def u1 u2 by (simp add: s1 s2)
qed

text \<open>A sample whose two results unwrap and sort is reported as the specification says.\<close>

lemma compare_sample_report:
  assumes "sorted_classes explain (classifier1 (input_val smp) (Some explain)) = Inr a1"
    and "sorted_classes explain (classifier2 (input_val smp) (Some explain)) = Inr a2"
  shows "compare_sample classifier1 classifier2 explain smp
       = Inr (compare_report classifier1 classifier2 explain smp)"
  unfolding compare_sample_sorted
      [where ?classifier1.0 = classifier1 and ?classifier2.0 = classifier2 and smp = smp
         and explain = explain, OF assms]
  by (simp add: compare_report_def divergence_line_def assms)

text \<open>
  The samples that come before a sample of the dataset are reported, in order, before
  it, as long as none of them throws.
\<close>

lemma compare_loop_prefix:
  assumes "\<forall>s\<in>set pre. \<exists>a1 a2.
      sorted_classes explain (classifier1 (input_val s) (Some explain)) = Inr a1
      \<and> sorted_classes explain (classifier2 (input_val s) (Some explain)) = Inr a2"
  shows "compare_loop classifier1 classifier2 explain (pre @ rest) =
     (concat (map (compare_report classifier1 classifier2 explain) pre)
        @ fst (compare_loop classifier1 classifier2 explain rest),
      snd (compare_loop classifier1 classifier2 explain rest))"
  using assms
proof (induction pre)
  case Nil
  show ?case by simp
next
  case (Cons s pre)
  from Cons.prems obtain a1 a2
    where "sorted_classes explain (classifier1 (input_val s) (Some explain)) = Inr a1"
      and "sorted_classes explain (classifier2 (input_val s) (Some explain)) = Inr a2"
    by auto
  then have b: "compare_sample classifier1 classifier2 explain s
       = Inr (compare_report classifier1 classifier2 explain s)"
    by (rule compare_sample_report)
  have "compare_loop classifier1 classifier2 explain (pre @ rest) =
     (concat (map (compare_report classifier1 classifier2 explain) pre)
        @ fst (compare_loop classifier1 classifier2 explain rest),
      snd (compare_loop classifier1 classifier2 explain rest))"
    using Cons.prems by (intro Cons.IH) simp
  with b show ?case by simp
qed

lemma divergence_line_not_verdict:
  "divergence_line classifier1 classifier2 explain smp a1 a2 \<notin> verdict_lines"
proof -
  have "CHR ''='' \<in> set (divergence_line classifier1 classifier2 explain smp a1 a2)"
    by (simp add: divergence_line_def)
  moreover have "\<forall>v\<in>verdict_lines. CHR ''='' \<notin> set v"
    by (simp add: verdict_lines_def)
  ultimately show ?thesis by blast
qed

lemma fst_compare:
  "fst (compare classifier1 classifier2 dataset explain)
     = fst (compare_loop classifier1 classifier2 explain dataset)"
  by (simp add: compare_def split: prod.splits option.splits)

text \<open>A run in which no sample throws writes the reports of its samples, in order.\<close>

lemma compare_run_report:
  assumes "\<forall>s\<in>set dataset. \<exists>a1 a2.
      sorted_classes explain (classifier1 (input_val s) (Some explain)) = Inr a1
      \<and> sorted_classes explain (classifier2 (input_val s) (Some explain)) = Inr a2"
  shows "compare classifier1 classifier2 dataset explain =
     (concat (map (compare_report classifier1 classifier2 explain) dataset), Inr JUndefined)"
  using compare_loop_prefix
    [where ?classifier1.0 = classifier1 and ?classifier2.0 = classifier2 and rest = "[]",
     OF assms]
  by (simp add: compare_def)

text \<open>
  C3. In a run of \<^verbatim>\<open>compare\<close>, take a sample that the run reaches (no sample before it
  throws) and on which the sorted class sequences of the two classifiers differ. The
  output of the run is the reports of the samples before it, then two lines for the
  sample, then the output for the samples after it. The two lines are the divergence
  line, which is none of the three verdicts, and exactly one verdict: classifier 1 is
  correct when its sorted output equals the normalised expected output, classifier 2
  is correct when that of classifier 1 does not and its own does, and both are
  incorrect when neither does.
\<close>

theorem compare_divergence_verdict:
  assumes "\<forall>s\<in>set pre. \<exists>b1 b2.
      sorted_classes explain (classifier1 (input_val s) (Some explain)) = Inr b1
      \<and> sorted_classes explain (classifier2 (input_val s) (Some explain)) = Inr b2"
    and "sorted_classes explain (classifier1 (input_val smp) (Some explain)) = Inr a1"
    and "sorted_classes explain (classifier2 (input_val smp) (Some explain)) = Inr a2"
    and "\<not> isEqual a1 a2"
  shows "fst (compare classifier1 classifier2 (pre @ smp # post) explain) =
           concat (map (compare_report classifier1 classifier2 explain) pre)
           @ [divergence_line classifier1 classifier2 explain smp a1 a2,
              if isEqual a1 (normalizeClasses (output_val smp))
              then [CHR 0x09, CHR 0x09] @ ''Classifier1 is correct''
              else if isEqual a2 (normalizeClasses (output_val smp))
              then [CHR 0x09, CHR 0x09] @ ''Classifier2 is correct''
              else [CHR 0x09, CHR 0x09] @ ''both are incorrect'']
           @ fst (compare classifier1 classifier2 post explain)
         \<and> divergence_line classifier1 classifier2 explain smp a1 a2 \<notin> verdict_lines"
proof -
  have b: "compare_sample classifier1 classifier2 explain smp
       = Inr (compare_report classifier1 classifier2 explain smp)"
    using assms(2,3) by (rule compare_sample_report)
  have r: "compare_report classifier1 classifier2 explain smp =
           [divergence_line classifier1 classifier2 explain smp a1 a2,
              if isEqual a1 (normalizeClasses (output_val smp))
              then [CHR 0x09, CHR 0x09] @ ''Classifier1 is correct''
              else if isEqual a2 (normalizeClasses (output_val smp))
              then [CHR 0x09, CHR 0x09] @ ''Classifier2 is correct''
              else [CHR 0x09, CHR 0x09] @ ''both are incorrect'']"
    using assms(4) by (simp add: compare_report_def assms(2,3))
  have "fst (compare_loop classifier1 classifier2 explain (pre @ smp # post)) =
          concat (map (compare_report classifier1 classifier2 explain) pre)
          @ fst (compare_loop classifier1 classifier2 explain (smp # post))"
    by (simp add: compare_loop_prefix
        [where ?classifier1.0 = classifier1 and ?classifier2.0 = classifier2, OF assms(1)])
  also have "fst (compare_loop classifier1 classifier2 explain (smp # post)) =
          compare_report classifier1 classifier2 explain smp
          @ fst (compare_loop classifier1 classifier2 explain post)"
    by (simp add: b split_beta)
  finally have "fst (compare classifier1 classifier2 (pre @ smp # post) explain) =
           concat (map (compare_report classifier1 classifier2 explain) pre)
           @ compare_report classifier1 classifier2 explain smp
           @ fst (compare classifier1 classifier2 post explain)"
    by (simp add: fst_compare)
  moreover have "divergence_line classifier1 classifier2 explain smp a1 a2 \<notin> verdict_lines"
    by (rule divergence_line_not_verdict)
  ultimately show ?thesis
    by (simp only: r) simp
qed

lemma normalize_x_A: "normalizeClasses (output_val sample_x_A) = JArr [JStr ''A'']"
  by (simp add: sample_x_A_def normalizeClasses_def isArray_def stringifyClass_def isString_def
      array_sort_def)

lemma normalize_y_AB: "normalizeClasses (output_val sample_y_AB) = JArr [JStr ''A'', JStr ''B'']"
  by (simp add: sample_y_AB_def normalizeClasses_def isArray_def stringifyClass_def isString_def
      array_sort_def)

lemma input_x_A: "input_val sample_x_A = JStr ''x''"
  by (simp add: sample_x_A_def)

theorem compare_divergence_verdict_witness:
  "sorted_classes 0 (answers_A (input_val sample_x_A) (Some 0)) = Inr (JArr [JStr ''A''])
   \<and> sorted_classes 0 (answers_B_A (input_val sample_x_A) (Some 0))
       = Inr (JArr [JStr ''A'', JStr ''B''])
   \<and> sorted_classes 0 (answers_A (input_val sample_y_AB) (Some 0)) = Inr (JArr [JStr ''A''])
   \<and> sorted_classes 0 (answers_B_A (input_val sample_y_AB) (Some 0))
       = Inr (JArr [JStr ''A'', JStr ''B''])
   \<and> \<not> isEqual (JArr [JStr ''A'']) (JArr [JStr ''A'', JStr ''B''])
   \<and> fst (compare answers_A answers_B_A ([sample_x_A] @ sample_y_AB # []) 0) =
       [[CHR 0x09, CHR 0x22] @ ''x'' @ [CHR 0x22] @ '' : classes1=A ; classes2=A,B'',
        [CHR 0x09, CHR 0x09] @ ''Classifier1 is correct'',
        [CHR 0x09, CHR 0x22] @ ''y'' @ [CHR 0x22] @ '' : classes1=A ; classes2=A,B'',
        [CHR 0x09, CHR 0x09] @ ''Classifier2 is correct'']"
proof -
  have s1: "sorted_classes 0 (answers_A i (Some 0)) = Inr (JArr [JStr ''A''])"
    for i
    by (simp add: sorted_classes_def answers_A_def array_sort_def)
  have s2: "sorted_classes 0 (answers_B_A i (Some 0))
       = Inr (JArr [JStr ''A'', JStr ''B''])" for i
    by (simp add: sorted_classes_def answers_B_A_def array_sort_def)
  have d: "\<not> isEqual (JArr [JStr ''A'']) (JArr [JStr ''A'', JStr ''B''])"
    by simp
  have p: "\<forall>s\<in>set [sample_x_A]. \<exists>b1 b2.
      sorted_classes 0 (answers_A (input_val s) (Some 0)) = Inr b1
      \<and> sorted_classes 0 (answers_B_A (input_val s) (Some 0)) = Inr b2"
    by (simp add: s1 s2)
  have iy: "input_val sample_y_AB = JStr ''y''"
    by (simp add: sample_y_AB_def)
  have q: "JSON_stringify (JStr [c]) [] = JStr ([CHR 0x22] @ quote_char c @ [CHR 0x22])" for c
    by (simp add: JSON_stringify_def Quote_def)
  have rx: "compare_report answers_A answers_B_A 0 sample_x_A =
       [[CHR 0x09, CHR 0x22] @ ''x'' @ [CHR 0x22] @ '' : classes1=A ; classes2=A,B'',
        [CHR 0x09, CHR 0x09] @ ''Classifier1 is correct'']"
    by (simp add: compare_report_def s1 s2 divergence_line_def normalize_x_A input_x_A q
        quote_char_def)
  have ly: "divergence_line answers_A answers_B_A 0 sample_y_AB
              (JArr [JStr ''A'']) (JArr [JStr ''A'', JStr ''B''])
            = [CHR 0x09, CHR 0x22] @ ''y'' @ [CHR 0x22] @ '' : classes1=A ; classes2=A,B''"
    by (simp add: divergence_line_def iy q quote_char_def)
  have e: "fst (compare answers_A answers_B_A [] 0) = []"
    by (simp add: compare_def)
  show ?thesis
    using compare_divergence_verdict
      [where ?classifier1.0 = answers_A and ?classifier2.0 = answers_B_A
         and pre = "[sample_x_A]" and smp = sample_y_AB and post = "[]" and explain = 0,
       OF p s1 s2 d]
    by (simp add: s1 s2 rx ly e normalize_y_AB)
qed

text \<open>
  C7. For a sample on which the sorted class sequences of the two classifiers are equal,
  \<^verbatim>\<open>compare\<close> writes nothing, whether or not the common output equals the normalised
  expected output.
\<close>

theorem compare_agreement_silent:
  assumes "sorted_classes explain (classifier1 (input_val smp) (Some explain)) = Inr a1"
    and "sorted_classes explain (classifier2 (input_val smp) (Some explain)) = Inr a2"
    and "isEqual a1 a2"
  shows "compare_sample classifier1 classifier2 explain smp = Inr []"
  using assms(3)
    by (simp add: compare_sample_sorted
        [where ?classifier1.0 = classifier1 and ?classifier2.0 = classifier2 and smp = smp
           and explain = explain, OF assms(1,2)])

theorem compare_agreement_silent_witness:
  "sorted_classes 0 (answers_A (input_val sample_y_AB) (Some 0)) = Inr (JArr [JStr ''A''])
   \<and> isEqual (JArr [JStr ''A'']) (JArr [JStr ''A''])
   \<and> \<not> isEqual (JArr [JStr ''A'']) (normalizeClasses (output_val sample_y_AB))
   \<and> compare_sample answers_A answers_A 0 sample_y_AB = Inr []"
proof -
  have s: "sorted_classes 0 (answers_A (input_val sample_y_AB) (Some 0)) = Inr (JArr [JStr ''A''])"
    by (simp add: sorted_classes_def answers_A_def array_sort_def)
  have e: "isEqual (JArr [JStr ''A'']) (JArr [JStr ''A''])"
    by simp
  show ?thesis
    using s e
      compare_agreement_silent
        [where ?classifier1.0 = answers_A and ?classifier2.0 = answers_A
           and smp = sample_y_AB and explain = 0, OF s s e]
    by (simp add: normalize_y_AB)
qed

text \<open>A run that does not throw writes the lines of its samples, in order.\<close>

lemma compare_lines:
  assumes "\<forall>smp\<in>set dataset. \<exists>ls. compare_sample classifier1 classifier2 explain smp = Inr ls"
  shows "compare classifier1 classifier2 dataset explain =
     (concat (map (\<lambda>smp. case compare_sample classifier1 classifier2 explain smp of
                            Inr ls \<Rightarrow> ls | Inl e \<Rightarrow> []) dataset),
      Inr JUndefined)"
proof -
  have "compare_loop classifier1 classifier2 explain dataset =
     (concat (map (\<lambda>smp. case compare_sample classifier1 classifier2 explain smp of
                            Inr ls \<Rightarrow> ls | Inl e \<Rightarrow> []) dataset), None)"
    using assms by (induction dataset) auto
  then show ?thesis by (simp add: compare_def)
qed

section \<open>Properties of \<^verbatim>\<open>testLite\<close>\<close>

lemma isEqual_strings:
  "\<forall>z\<in>set zs. z = JUndefined \<or> (\<exists>s. z = JStr s) \<Longrightarrow> list_all2 isEqual zs ys \<longleftrightarrow> zs = ys"
  by (induction zs arbitrary: ys) (auto simp: list_all2_Cons1)

lemma isEqual_normalized:
  "isEqual (normalizeClasses x) (JArr ys) \<longleftrightarrow> normalizeClasses x = JArr ys"
proof -
  have "\<forall>z\<in>set (array_sort (map stringifyClass (if isArray x then elements x else [x]))).
          z = JUndefined \<or> (\<exists>s. z = JStr s)"
    using stringifyClass_cases by auto
  then show ?thesis
    by (simp add: normalizeClasses_array isEqual_strings)
qed

lemma lite_unwrap_sort:
  assumes "is_classification_result r"
  shows "\<exists>c. get_classes r = Inr c
           \<and> call_sort (if truthy c then c else r)
               = Inr (JArr (array_sort (elements (unwrap_classes r))))"
proof (cases r)
  case (JObj kvs)
  with assms obtain xs where "map_of kvs ''classes'' = Some (JArr xs)"
    by (auto split: option.splits jsval.splits)
  with JObj show ?thesis by simp
qed (use assms in simp_all)

lemma testLite_sample_result:
  assumes "is_classification_result (classifier (input_val smp) (Some explain))"
  shows "testLite_sample classifier explain smp =
     Inr (if lite_expected smp \<noteq> lite_actual classifier explain smp
          then [lite_mismatch_line classifier explain smp] else [],
          lite_expected smp, lite_actual classifier explain smp)"
proof -
  define r where "r = classifier (input_val smp) (Some explain)"
  from assms obtain c where c: "get_classes r = Inr c"
    and s: "call_sort (if truthy c then c else r)
               = Inr (JArr (array_sort (elements (unwrap_classes r))))"
    using lite_unwrap_sort [of r] by (auto simp: r_def)
  have "testLite_sample classifier explain smp =
     Inr (if \<not> isEqual (normalizeClasses (output_val smp))
                  (JArr (array_sort (elements (unwrap_classes r))))
          then [[CHR 0x09] @ ToString (JSON_stringify (input_val smp) [])
                @ '': expected '' @ ToString (normalizeClasses (output_val smp))
                @ '' but got ''
                @ (if explain \<noteq> 0
                   then ToString (JSON_stringify
                          (after_sort r (JArr (array_sort (elements (unwrap_classes r)))))
                          [CHR 0x09])
                   else ToString (JArr (array_sort (elements (unwrap_classes r)))))]
          else [],
          normalizeClasses (output_val smp), JArr (array_sort (elements (unwrap_classes r))))"
    unfolding testLite_sample_def Let_def r_def [symmetric] c by (simp add: s)
  then show ?thesis
    by (simp add: lite_expected_def lite_actual_def lite_mismatch_line_def isEqual_normalized
        r_def)
qed

lemma testLite_loop_result:
  assumes "\<forall>smp\<in>set dataset. is_classification_result (classifier (input_val smp) (Some explain))"
  shows "testLite_loop R classifier explain dataset st =
     (concat (map (\<lambda>smp. if lite_expected smp \<noteq> lite_actual classifier explain smp
                          then [lite_mismatch_line classifier explain smp] else []) dataset),
      Inr (fold (\<lambda>smp st. snd (addCases R st (lite_expected smp)
                                   (lite_actual classifier explain smp) False)) dataset st))"
  using assms
proof (induction dataset arbitrary: st)
  case Nil
  show ?case by simp
next
  case (Cons smp rest)
  have w: "is_classification_result (classifier (input_val smp) (Some explain))"
    using Cons.prems by simp
  have r: "\<forall>s\<in>set rest. is_classification_result (classifier (input_val s) (Some explain))"
    using Cons.prems by simp
  show ?case
    by (simp add: testLite_sample_result [where classifier = classifier, OF w]
        Cons.IH [OF r] Let_def)
qed

text \<open>
  C8. When the classifier returns, for every sample, a classification result (a bare
  array, or an object whose \<^verbatim>\<open>classes\<close> is an array), \<^verbatim>\<open>testLite\<close> does what the
  specification says: per sample it normalises the expected output, unwraps \<^verbatim>\<open>classes\<close>
  if present and sorts the actual classes, writes a mismatch line exactly when the two
  sequences differ (with the serialised result when \<^verbatim>\<open>explain\<close> is truthy), records
  every pair, and writes the summary line after the loop.
\<close>

theorem testLite_as_specified:
  assumes "\<forall>smp\<in>set dataset. is_classification_result (classifier (input_val smp) (Some explain))"
  shows "testLite R classifier dataset explain = testLite_spec R classifier dataset explain"
  by (simp add: testLite_def testLite_spec_def
      testLite_loop_result [where classifier = classifier, OF assms])

lemma testLite_spec_example:
  "testLite_spec counting_recorder explains_B_A [sample_x_A, sample_y_AB] 0 =
     ([[CHR 0x09, CHR 0x22] @ ''x'' @ [CHR 0x22] @ '': expected A but got A,B'',
       ''SUMMARY: 1/2''],
      Inr JUndefined)"
  by (simp add: testLite_spec_def lite_expected_def lite_actual_def lite_mismatch_line_def
      normalize_x_A normalize_y_AB explains_B_A_def array_sort_def
      counting_recorder_def counting_addCases_def counting_shortStats_def digits.simps
      JSON_stringify_def Quote_def quote_char_def input_x_A)

theorem testLite_as_specified_witness:
  "is_classification_result (explains_B_A (input_val sample_x_A) (Some 0))
   \<and> is_classification_result (explains_B_A (input_val sample_y_AB) (Some 0))
   \<and> testLite counting_recorder explains_B_A [sample_x_A, sample_y_AB] 0 =
       ([[CHR 0x09, CHR 0x22] @ ''x'' @ [CHR 0x22] @ '': expected A but got A,B'',
         ''SUMMARY: 1/2''],
        Inr JUndefined)"
proof -
  have w: "\<forall>smp\<in>set [sample_x_A, sample_y_AB].
             is_classification_result (explains_B_A (input_val smp) (Some 0))"
    by (simp add: explains_B_A_def)
  show ?thesis
    using w testLite_as_specified [where classifier = explains_B_A and R = counting_recorder, OF w]
      testLite_spec_example
    by simp
qed

section \<open>Properties of \<^verbatim>\<open>trainAndCompare\<close>\<close>

lemma compare_sample_cong:
  assumes "g1 (input_val smp) (Some explain) = c1 (input_val smp) (Some explain)"
    and "g2 (input_val smp) (Some explain) = c2 (input_val smp) (Some explain)"
  shows "compare_sample g1 g2 explain smp = compare_sample c1 c2 explain smp"
  by (simp add: compare_sample_def assms)

lemma compare_loop_cong:
  assumes "\<forall>smp\<in>set dataset.
      g1 (input_val smp) (Some explain) = c1 (input_val smp) (Some explain)
      \<and> g2 (input_val smp) (Some explain) = c2 (input_val smp) (Some explain)"
  shows "compare_loop g1 g2 explain dataset = compare_loop c1 c2 explain dataset"
  using assms
proof (induction dataset)
  case Nil
  show ?case by simp
next
  case (Cons smp rest)
  have "compare_sample g1 g2 explain smp = compare_sample c1 c2 explain smp"
    using Cons.prems by (intro compare_sample_cong) simp_all
  moreover have "compare_loop g1 g2 explain rest = compare_loop c1 c2 explain rest"
    using Cons by simp
  ultimately show ?case by (simp split: sum.splits)
qed

lemma compare_completion:
  "snd (compare c1 c2 dataset explain) = Inr JUndefined
   \<or> snd (compare c1 c2 dataset explain) = Inl TypeError"
proof (cases "compare_loop c1 c2 explain dataset")
  case (Pair out r)
  then show ?thesis
  proof (cases r)
    case None
    with Pair show ?thesis by (simp add: compare_def)
  next
    case (Some e)
    with Pair show ?thesis by (cases e) (simp add: compare_def)
  qed
qed

lemma compare_sample_unwraps:
  assumes "explain \<noteq> 0"
    and "get_classes (c1 (input_val smp) (Some explain)) = Inr (JArr xs1)"
    and "get_classes (c2 (input_val smp) (Some explain)) = Inr (JArr xs2)"
  shows "compare_sample c1 c2 explain smp = Inr []
         \<longleftrightarrow> isEqual (JArr (array_sort xs1)) (JArr (array_sort xs2))"
  using assms by (simp add: compare_sample_def Let_def)

text \<open>
  C10. \<^verbatim>\<open>trainAndCompare\<close> trains the two new classifiers and then runs \<^verbatim>\<open>compare\<close> on
  the test set with its \<^verbatim>\<open>verbosity\<close> as the flag \<^verbatim>\<open>explain\<close>: its output is the training
  messages followed by the output of that call, and its completion is that of the call,
  which is \<^verbatim>\<open>undefined\<close> when it returns. The call depends on the classifiers only through
  \<^verbatim>\<open>classify\<close> with \<^verbatim>\<open>verbosity\<close> as second argument, and when \<^verbatim>\<open>verbosity\<close> is truthy the
  sequences compared are the sorted \<^verbatim>\<open>classes\<close> of the results.
\<close>

theorem trainAndCompare_forwards_verbosity:
  fixes K1 :: "'a classifier_class" and K2 :: "'b classifier_class"
  shows "trainAndCompare now K1 K2 factory1 factory2 trainSet testSet verbosity =
     ((if verbosity > 0
       then [start_training [CHR 0x0A] trainSet, end_training trainSet (now 1 - now 0),
             start_training [] trainSet, end_training trainSet (now 3 - now 2)]
       else [])
      @ fst (compare (classify K1 (trainBatch K1 (factory1 ()) trainSet))
                     (classify K2 (trainBatch K2 (factory2 ()) trainSet)) testSet verbosity),
      snd (compare (classify K1 (trainBatch K1 (factory1 ()) trainSet))
                   (classify K2 (trainBatch K2 (factory2 ()) trainSet)) testSet verbosity))
   \<and> (snd (trainAndCompare now K1 K2 factory1 factory2 trainSet testSet verbosity)
         = Inr JUndefined
       \<or> snd (trainAndCompare now K1 K2 factory1 factory2 trainSet testSet verbosity)
         = Inl TypeError)
   \<and> (\<forall>g1 g2.
        (\<forall>smp\<in>set testSet.
           g1 (input_val smp) (Some verbosity)
             = classify K1 (trainBatch K1 (factory1 ()) trainSet) (input_val smp) (Some verbosity)
           \<and> g2 (input_val smp) (Some verbosity)
             = classify K2 (trainBatch K2 (factory2 ()) trainSet) (input_val smp) (Some verbosity))
        \<longrightarrow> compare g1 g2 testSet verbosity
            = compare (classify K1 (trainBatch K1 (factory1 ()) trainSet))
                      (classify K2 (trainBatch K2 (factory2 ()) trainSet)) testSet verbosity)
   \<and> (\<forall>smp xs1 xs2.
        verbosity \<noteq> 0
        \<and> get_classes (classify K1 (trainBatch K1 (factory1 ()) trainSet)
                         (input_val smp) (Some verbosity)) = Inr (JArr xs1)
        \<and> get_classes (classify K2 (trainBatch K2 (factory2 ()) trainSet)
                         (input_val smp) (Some verbosity)) = Inr (JArr xs2)
        \<longrightarrow> (compare_sample (classify K1 (trainBatch K1 (factory1 ()) trainSet))
                            (classify K2 (trainBatch K2 (factory2 ()) trainSet)) verbosity smp
               = Inr []
             \<longleftrightarrow> isEqual (JArr (array_sort xs1)) (JArr (array_sort xs2))))"
proof -
  let ?c1 = "classify K1 (trainBatch K1 (factory1 ()) trainSet)"
  let ?c2 = "classify K2 (trainBatch K2 (factory2 ()) trainSet)"
  have eq: "trainAndCompare now K1 K2 factory1 factory2 trainSet testSet verbosity =
     ((if verbosity > 0
       then [start_training [CHR 0x0A] trainSet, end_training trainSet (now 1 - now 0),
             start_training [] trainSet, end_training trainSet (now 3 - now 2)]
       else [])
      @ fst (compare ?c1 ?c2 testSet verbosity), snd (compare ?c1 ?c2 testSet verbosity))"
    by (simp add: trainAndCompare_def Let_def split_beta)
  have fin: "snd (trainAndCompare now K1 K2 factory1 factory2 trainSet testSet verbosity)
         = Inr JUndefined
       \<or> snd (trainAndCompare now K1 K2 factory1 factory2 trainSet testSet verbosity)
         = Inl TypeError"
    using compare_completion [of ?c1 ?c2 testSet verbosity] by (simp only: eq snd_conv)
  have dep: "compare g1 g2 testSet verbosity = compare ?c1 ?c2 testSet verbosity"
    if "\<forall>smp\<in>set testSet.
           g1 (input_val smp) (Some verbosity) = ?c1 (input_val smp) (Some verbosity)
           \<and> g2 (input_val smp) (Some verbosity) = ?c2 (input_val smp) (Some verbosity)"
    for g1 g2
    using compare_loop_cong [where ?g1.0 = g1 and ?g2.0 = g2 and ?c1.0 = ?c1 and ?c2.0 = ?c2, OF that]
    by (simp add: compare_def)
  have unw: "compare_sample ?c1 ?c2 verbosity smp = Inr []
             \<longleftrightarrow> isEqual (JArr (array_sort xs1)) (JArr (array_sort xs2))"
    if "verbosity \<noteq> 0"
      and "get_classes (?c1 (input_val smp) (Some verbosity)) = Inr (JArr xs1)"
      and "get_classes (?c2 (input_val smp) (Some verbosity)) = Inr (JArr xs2)"
    for smp xs1 xs2
    using that by (rule compare_sample_unwraps)
  have dep': "\<forall>g1 g2.
        (\<forall>smp\<in>set testSet.
           g1 (input_val smp) (Some verbosity) = ?c1 (input_val smp) (Some verbosity)
           \<and> g2 (input_val smp) (Some verbosity) = ?c2 (input_val smp) (Some verbosity))
        \<longrightarrow> compare g1 g2 testSet verbosity = compare ?c1 ?c2 testSet verbosity"
    using dep by blast
  have unw': "\<forall>smp xs1 xs2.
        verbosity \<noteq> 0
        \<and> get_classes (?c1 (input_val smp) (Some verbosity)) = Inr (JArr xs1)
        \<and> get_classes (?c2 (input_val smp) (Some verbosity)) = Inr (JArr xs2)
        \<longrightarrow> (compare_sample ?c1 ?c2 verbosity smp = Inr []
             \<longleftrightarrow> isEqual (JArr (array_sort xs1)) (JArr (array_sort xs2)))"
    using unw by blast
  show ?thesis
    by (rule conjI [OF eq conjI [OF fin conjI [OF dep' unw']]])
qed

lemma fixed_A_1: "classify (fixed_class [JStr ''A'']) n inp (Some 1)
    = JObj [(''classes'', JArr [JStr ''A'']), (''explanations'', JNum (int n))]"
  by (simp add: fixed_class_def)

lemma fixed_BA_1: "classify (fixed_class [JStr ''B'', JStr ''A'']) n inp (Some 1)
    = JObj [(''classes'', JArr [JStr ''B'', JStr ''A'']), (''explanations'', JNum (int n))]"
  by (simp add: fixed_class_def)

lemma train_fixed: "trainBatch (fixed_class labels) (new_fixed ()) train_xy = 2"
  by (simp add: fixed_class_def new_fixed_def train_xy_def)

theorem trainAndCompare_forwards_verbosity_witness:
  "take 4 (fst (trainAndCompare clock_5 (fixed_class [JStr ''A''])
                  (fixed_class [JStr ''B'', JStr ''A'']) new_fixed new_fixed
                  train_xy [sample_x_A] 1))
     = [[CHR 0x0A] @ ''start training on 2 samples, 2 classes'',
        ''end training on 2 samples, 2 classes, 5 [ms]'',
        ''start training on 2 samples, 2 classes'',
        ''end training on 2 samples, 2 classes, 5 [ms]'']
   \<and> drop 5 (fst (trainAndCompare clock_5 (fixed_class [JStr ''A''])
                  (fixed_class [JStr ''B'', JStr ''A'']) new_fixed new_fixed
                  train_xy [sample_x_A] 1))
     = [[CHR 0x09, CHR 0x09] @ ''Classifier1 is correct'']
   \<and> snd (trainAndCompare clock_5 (fixed_class [JStr ''A''])
                  (fixed_class [JStr ''B'', JStr ''A'']) new_fixed new_fixed
                  train_xy [sample_x_A] 1) = Inr JUndefined"
proof -
  have s: "compare_sample (classify (fixed_class [JStr ''A'']) 2)
             (classify (fixed_class [JStr ''B'', JStr ''A'']) 2) 1 sample_x_A
           = Inr [[CHR 0x09] @ ToString (JSON_stringify (JStr ''x'') [])
                 @ '' : classes1=''
                 @ ToString (JSON_stringify
                      (JObj [(''classes'', JArr [JStr ''A'']), (''explanations'', JNum 2)])
                      [CHR 0x09])
                 @ '' ; classes2=''
                 @ ToString (JSON_stringify
                      (JObj [(''classes'', JArr [JStr ''A'', JStr ''B'']),
                             (''explanations'', JNum 2)])
                      [CHR 0x09]),
                 [CHR 0x09, CHR 0x09] @ ''Classifier1 is correct'']"
    by (simp add: compare_sample_def fixed_A_1 fixed_BA_1 normalize_x_A input_x_A
        array_sort_def after_sort_def)
  have c: "compare (classify (fixed_class [JStr ''A'']) 2)
             (classify (fixed_class [JStr ''B'', JStr ''A'']) 2) [sample_x_A] 1
           = ([[CHR 0x09] @ ToString (JSON_stringify (JStr ''x'') [])
                 @ '' : classes1=''
                 @ ToString (JSON_stringify
                      (JObj [(''classes'', JArr [JStr ''A'']), (''explanations'', JNum 2)])
                      [CHR 0x09])
                 @ '' ; classes2=''
                 @ ToString (JSON_stringify
                      (JObj [(''classes'', JArr [JStr ''A'', JStr ''B'']),
                             (''explanations'', JNum 2)])
                      [CHR 0x09]),
                 [CHR 0x09, CHR 0x09] @ ''Classifier1 is correct''], Inr JUndefined)"
    by (simp add: compare_def s)
  have t: "start_training pre train_xy = pre @ ''start training on 2 samples, 2 classes''"
    for pre
    by (simp add: start_training_def train_xy_def NumberToString_def digits.simps)
  have e: "end_training train_xy 5 = ''end training on 2 samples, 2 classes, 5 [ms]''"
    by (simp add: end_training_def train_xy_def NumberToString_def digits.simps)
  show ?thesis
    using trainAndCompare_forwards_verbosity
      [of clock_5 "fixed_class [JStr ''A'']" "fixed_class [JStr ''B'', JStr ''A'']"
          new_fixed new_fixed train_xy "[sample_x_A]" 1]
    by (simp add: train_fixed c t e clock_5_def)
qed

section \<open>Which arrays the functions change\<close>

lemma cell_append: "cell (h @ [xs]) a = (if a = length h then xs else cell h a)"
  by (auto simp: cell_def nth_append)

lemma cell_sort_in_place:
  "cell (sort_in_place h a) b = (if b = a then array_sort (cell h a) else cell h b)"
  by (auto simp: cell_def sort_in_place_def array_sort_def)

lemma length_sort_in_place [simp]: "length (sort_in_place h a) = length h"
  by (simp add: sort_in_place_def)

lemma sorts_only_iff:
  "sorts_only as h h' \<longleftrightarrow>
     length h \<le> length h'
     \<and> (\<forall>a<length h. cell h' a = (if a \<in> set as then array_sort (cell h a) else cell h a))"
  by (auto simp: sorts_only_def list_all_iff)

lemma sorts_only_refl: "sorts_only [] h h"
  by (simp add: sorts_only_iff)

lemma sorts_only_alloc: "sorts_only [] h (fst (alloc h xs))"
  by (simp add: sorts_only_iff alloc_def cell_append)

lemma sorts_only_sort: "sorts_only [a] h (sort_in_place h a)"
  by (simp add: sorts_only_iff cell_sort_in_place)

lemma sorts_only_trans:
  assumes "sorts_only as h h1" and "sorts_only bs h1 h2"
  shows "sorts_only (as @ bs) h h2"
proof -
  have "cell h2 a = (if a \<in> set (as @ bs) then array_sort (cell h a) else cell h a)"
    if "a < length h" for a
  proof -
    from that assms(1) have 1: "a < length h1"
      and c1: "cell h1 a = (if a \<in> set as then array_sort (cell h a) else cell h a)"
      by (auto simp: sorts_only_iff)
    from 1 assms(2) have "cell h2 a = (if a \<in> set bs then array_sort (cell h1 a) else cell h1 a)"
      by (auto simp: sorts_only_iff)
    with c1 show ?thesis by (auto simp: array_sort_idem)
  qed
  moreover have "length h \<le> length h2"
    using assms by (auto simp: sorts_only_iff)
  ultimately show ?thesis by (simp add: sorts_only_iff)
qed

lemma sorts_only_set:
  "set as = set bs \<Longrightarrow> sorts_only as h h' = sorts_only bs h h'"
  by (simp add: sorts_only_iff)

text \<open>A new array that is sorted afterwards leaves the arrays of before as they were.\<close>

lemma sorts_only_fresh_sort:
  "sorts_only [] h (sort_in_place (fst (alloc h xs)) (snd (alloc h xs)))"
  by (simp add: sorts_only_iff alloc_def cell_sort_in_place cell_append)

lemma normalizeClasses_st_frame:
  "sorts_only [] h (fst (normalizeClasses_st h v))"
proof (cases "isArray_st v")
  case True
  then show ?thesis
    using sorts_only_fresh_sort [of h "map stringifyClass (elements (view h v))"]
    by (simp add: normalizeClasses_st_def Let_def split_beta)
next
  case False
  let ?h1 = "fst (alloc h [view h v])"
  let ?a1 = "snd (alloc h [view h v])"
  have "sorts_only [] h ?h1"
    by (rule sorts_only_alloc)
  moreover have "sorts_only [] ?h1
      (sort_in_place (fst (alloc ?h1 (map stringifyClass (elements (view ?h1 (RArr ?a1))))))
                     (snd (alloc ?h1 (map stringifyClass (elements (view ?h1 (RArr ?a1)))))))"
    by (rule sorts_only_fresh_sort)
  ultimately have "sorts_only ([] @ []) h
      (sort_in_place (fst (alloc ?h1 (map stringifyClass (elements (view ?h1 (RArr ?a1))))))
                     (snd (alloc ?h1 (map stringifyClass (elements (view ?h1 (RArr ?a1)))))))"
    by (rule sorts_only_trans)
  with False show ?thesis
    by (simp add: normalizeClasses_st_def Let_def split_beta)
qed

lemma normalizeClasses_st_result:
  "\<exists>a. snd (normalizeClasses_st h v) = RArr a \<and> length h \<le> a
       \<and> a < length (fst (normalizeClasses_st h v))"
  by (cases "isArray_st v") (simp_all add: normalizeClasses_st_def Let_def split_beta alloc_def)

lemma isArray_view: "isArray (view h v) = isArray_st v"
  by (cases v) (simp_all add: isArray_def)

lemma normalizeClasses_st_view:
  "view (fst (normalizeClasses_st h v)) (snd (normalizeClasses_st h v))
     = normalizeClasses (view h v)"
proof (cases "isArray_st v")
  case True
  then show ?thesis
    by (simp add: normalizeClasses_st_def Let_def split_beta alloc_def cell_sort_in_place
        cell_append normalizeClasses_array isArray_view)
next
  case False
  have "cell (h @ [xs, ys]) (Suc (length h)) = ys" for xs ys
    by (simp add: cell_def nth_append)
  with False show ?thesis
    by (simp add: normalizeClasses_st_def Let_def split_beta alloc_def cell_sort_in_place
        cell_append normalizeClasses_array isArray_view)
qed


subsection \<open>\<^verbatim>\<open>testLite\<close> over the store\<close>

text \<open>
  A result with a class array unwraps to that array, which is then sorted; any other
  result makes the property access or the call of \<^verbatim>\<open>sort\<close> throw.
\<close>

lemma class_array_unwrap:
  assumes "class_array r = Some a"
  shows "\<exists>c. get_classes_st r = Inr c \<and> (if truthy_st c then c else r) = RArr a"
proof (cases r)
  case (RObj kvs)
  with assms have "map_of kvs ''classes'' = Some (RArr a)"
    by (auto split: option.splits rval.splits)
  with RObj show ?thesis by simp
qed (use assms in simp_all)

lemma class_array_none:
  assumes "class_array r = None"
  shows "get_classes_st r = Inl TypeError
         \<or> (\<exists>c. get_classes_st r = Inr c
                 \<and> call_sort_st h (if truthy_st c then c else r) = Inl TypeError)"
proof (cases r)
  case (RObj kvs)
  show ?thesis
  proof (cases "map_of kvs ''classes''")
    case None
    with RObj show ?thesis by simp
  next
    case (Some v)
    with RObj assms have "\<forall>a. v \<noteq> RArr a"
      by auto
    with RObj Some show ?thesis
      by (cases v) simp_all
  qed
qed (use assms in simp_all)

lemma testLite_sample_st_sorts:
  assumes "class_array (classifier (input_of smp) (Some explain)) = Some a"
  shows "\<exists>h' res. testLite_sample_st classifier explain smp h = (h', Inr res)
           \<and> sorts_only [a] h h'"
proof -
  define r where "r = classifier (input_of smp) (Some explain)"
  define h1 where "h1 = fst (normalizeClasses_st h (output_of smp))"
  from assms obtain c where c: "get_classes_st r = Inr c"
    and u: "(if truthy_st c then c else r) = RArr a"
    using class_array_unwrap [of r a] by (auto simp: r_def)
  have "sorts_only [] h h1"
    unfolding h1_def by (rule normalizeClasses_st_frame)
  then have "sorts_only ([] @ [a]) h (sort_in_place h1 a)"
    using sorts_only_sort by (rule sorts_only_trans)
  moreover have "\<exists>res. testLite_sample_st classifier explain smp h
      = (sort_in_place h1 a, Inr res)"
    unfolding testLite_sample_st_def Let_def split_beta r_def [symmetric] h1_def [symmetric] c
    by (simp add: u)
  ultimately show ?thesis by auto
qed

lemma testLite_sample_st_throws:
  assumes "class_array (classifier (input_of smp) (Some explain)) = None"
  shows "\<exists>h'. testLite_sample_st classifier explain smp h = (h', Inl TypeError)
           \<and> sorts_only [] h h'"
proof -
  define r where "r = classifier (input_of smp) (Some explain)"
  define h1 where "h1 = fst (normalizeClasses_st h (output_of smp))"
  have f: "sorts_only [] h h1"
    unfolding h1_def by (rule normalizeClasses_st_frame)
  from assms have "get_classes_st r = Inl TypeError
         \<or> (\<exists>c. get_classes_st r = Inr c
                 \<and> call_sort_st h1 (if truthy_st c then c else r) = Inl TypeError)"
    unfolding r_def by (rule class_array_none)
  then have "testLite_sample_st classifier explain smp h = (h1, Inl TypeError)"
  proof
    assume "get_classes_st r = Inl TypeError"
    then show ?thesis
      unfolding testLite_sample_st_def Let_def split_beta r_def [symmetric] h1_def [symmetric]
      by simp
  next
    assume "\<exists>c. get_classes_st r = Inr c
                 \<and> call_sort_st h1 (if truthy_st c then c else r) = Inl TypeError"
    then obtain c where c: "get_classes_st r = Inr c"
      and s: "call_sort_st h1 (if truthy_st c then c else r) = Inl TypeError"
      by blast
    show ?thesis
      unfolding testLite_sample_st_def Let_def split_beta r_def [symmetric] h1_def [symmetric] c
      by (simp add: s)
  qed
  with f show ?thesis by blast
qed

text \<open>The arrays sorted by a run, whether it returns or throws.\<close>

lemma testLite_loop_st_frame:
  "sorts_only (sorted_by_testLite classifier explain dataset) h
     (fst (testLite_loop_st R classifier explain dataset h st))"
proof (induction dataset arbitrary: h st)
  case Nil
  show ?case by (simp add: sorts_only_refl)
next
  case (Cons smp rest)
  show ?case
  proof (cases "class_array (classifier (input_of smp) (Some explain))")
    case None
    then obtain h1 where "testLite_sample_st classifier explain smp h = (h1, Inl TypeError)"
      and "sorts_only [] h h1"
      using testLite_sample_st_throws [where classifier = classifier] by blast
    with None show ?thesis by simp
  next
    case (Some a)
    then obtain h1 res
      where b: "testLite_sample_st classifier explain smp h = (h1, Inr res)"
        and f: "sorts_only [a] h h1"
      using testLite_sample_st_sorts [where classifier = classifier] by blast
    obtain lines e ac where res: "res = (lines, e, ac)"
      by (cases res)
    have "sorts_only ([a] @ sorted_by_testLite classifier explain rest) h
       (fst (testLite_loop_st R classifier explain rest h1 (snd (addCases R st e ac False))))"
      using f Cons.IH by (rule sorts_only_trans)
    with Some b res show ?thesis
      by (simp add: split_beta Let_def)
  qed
qed

lemma testLite_st_frame:
  "sorts_only (sorted_by_testLite classifier explain dataset) h
     (fst (testLite_st R classifier dataset explain h))"
proof -
  have "fst (testLite_st R classifier dataset explain h)
      = fst (testLite_loop_st R classifier explain dataset h (newPR R))"
    by (simp add: testLite_st_def split: prod.splits sum.splits)
  then show ?thesis
    by (simp add: testLite_loop_st_frame)
qed

text \<open>When every result has a class array, all of them are sorted.\<close>

lemma sorted_by_testLite_all:
  assumes "\<forall>smp\<in>set dataset. class_array (classifier (input_of smp) (Some explain)) \<noteq> None"
  shows "sorted_by_testLite classifier explain dataset = class_arrays classifier explain dataset"
  using assms by (induction dataset) (auto simp: class_arrays_def)

subsection \<open>\<^verbatim>\<open>compare\<close> over the store\<close>

lemma compared_array_unwrap:
  assumes "compared_array explain r = Some a"
  shows "(if explain \<noteq> 0 then get_classes_st r else Inr r) = Inr (RArr a)"
proof (cases r)
  case (RArr b)
  with assms show ?thesis by (simp split: if_splits)
next
  case (RObj kvs)
  with assms have "explain \<noteq> 0" and "map_of kvs ''classes'' = Some (RArr a)"
    by (auto split: if_splits option.splits rval.splits)
  with RObj show ?thesis by simp
qed (use assms in simp_all)

lemma compared_array_unwraps: "compared_array explain r = Some a \<Longrightarrow> unwraps explain r"
  by (cases r) (simp_all add: unwraps_def)

lemma not_unwraps:
  "\<not> unwraps explain r \<Longrightarrow> (if explain \<noteq> 0 then get_classes_st r else Inr r) = Inl TypeError"
  by (auto simp: unwraps_def)

lemma unwraps_returns:
  assumes "unwraps explain r"
  shows "\<exists>c. (if explain \<noteq> 0 then get_classes_st r else Inr r) = Inr c"
proof (cases "explain = 0")
  case True
  then show ?thesis by simp
next
  case False
  with assms show ?thesis
    by (cases r) (simp_all add: unwraps_def)
qed

lemma unwraps_no_array:
  assumes "unwraps explain r" and "compared_array explain r = None"
  shows "\<exists>c. (if explain \<noteq> 0 then get_classes_st r else Inr r) = Inr c
           \<and> call_sort_st h c = Inl TypeError"
proof (cases "explain = 0")
  case True
  with assms(2) show ?thesis by (cases r) simp_all
next
  case False
  show ?thesis
  proof (cases r)
    case (RObj kvs)
    show ?thesis
    proof (cases "map_of kvs ''classes''")
      case None
      with RObj False show ?thesis by simp
    next
      case (Some v)
      with RObj False assms(2) have "\<forall>a. v \<noteq> RArr a"
        by auto
      with RObj Some False show ?thesis
        by (cases v) simp_all
    qed
  qed (use assms(1) False in \<open>simp_all add: unwraps_def\<close>)
qed

text \<open>The four ways through one sample.\<close>

lemma compare_sample_st_no_unwrap:
  assumes "\<not> (unwraps explain (classifier1 (input_of smp) (Some explain))
              \<and> unwraps explain (classifier2 (input_of smp) (Some explain)))"
  shows "\<exists>h'. compare_sample_st classifier1 classifier2 explain smp h = (h', Inl TypeError)
           \<and> sorts_only [] h h'"
proof -
  define r1 where "r1 = classifier1 (input_of smp) (Some explain)"
  define r2 where "r2 = classifier2 (input_of smp) (Some explain)"
  define h1 where "h1 = fst (normalizeClasses_st h (output_of smp))"
  have f: "sorts_only [] h h1"
    unfolding h1_def by (rule normalizeClasses_st_frame)
  have "compare_sample_st classifier1 classifier2 explain smp h = (h1, Inl TypeError)"
  proof (cases "unwraps explain r1")
    case False
    then have "(if explain \<noteq> 0 then get_classes_st r1 else Inr r1) = Inl TypeError"
      by (rule not_unwraps)
    then show ?thesis
      unfolding compare_sample_st_def Let_def split_beta r1_def [symmetric]
        r2_def [symmetric] h1_def [symmetric]
      by simp
  next
    case True
    with assms have "\<not> unwraps explain r2"
      by (simp add: r1_def r2_def)
    then have u2: "(if explain \<noteq> 0 then get_classes_st r2 else Inr r2) = Inl TypeError"
      by (rule not_unwraps)
    obtain c1 where u1: "(if explain \<noteq> 0 then get_classes_st r1 else Inr r1) = Inr c1"
      using unwraps_returns [OF True] by blast
    show ?thesis
      unfolding compare_sample_st_def Let_def split_beta r1_def [symmetric]
        r2_def [symmetric] h1_def [symmetric] u1 u2
      by simp
  qed
  with f show ?thesis by blast
qed

lemma compare_sample_st_first_throws:
  assumes "unwraps explain (classifier1 (input_of smp) (Some explain))"
    and "unwraps explain (classifier2 (input_of smp) (Some explain))"
    and "compared_array explain (classifier1 (input_of smp) (Some explain)) = None"
  shows "\<exists>h'. compare_sample_st classifier1 classifier2 explain smp h = (h', Inl TypeError)
           \<and> sorts_only [] h h'"
proof -
  define r1 where "r1 = classifier1 (input_of smp) (Some explain)"
  define r2 where "r2 = classifier2 (input_of smp) (Some explain)"
  define h1 where "h1 = fst (normalizeClasses_st h (output_of smp))"
  have f: "sorts_only [] h h1"
    unfolding h1_def by (rule normalizeClasses_st_frame)
  obtain c1 where u1: "(if explain \<noteq> 0 then get_classes_st r1 else Inr r1) = Inr c1"
    and s1: "call_sort_st h1 c1 = Inl TypeError"
    using unwraps_no_array [of explain r1 h1] assms(1,3) by (auto simp: r1_def)
  obtain c2 where u2: "(if explain \<noteq> 0 then get_classes_st r2 else Inr r2) = Inr c2"
    using unwraps_returns [OF assms(2)] unfolding r2_def by blast
  have "compare_sample_st classifier1 classifier2 explain smp h = (h1, Inl TypeError)"
    unfolding compare_sample_st_def Let_def split_beta r1_def [symmetric]
      r2_def [symmetric] h1_def [symmetric] u1 u2
    by (simp add: s1)
  with f show ?thesis by blast
qed

lemma compare_sample_st_second_throws:
  assumes "compared_array explain (classifier1 (input_of smp) (Some explain)) = Some a1"
    and "unwraps explain (classifier2 (input_of smp) (Some explain))"
    and "compared_array explain (classifier2 (input_of smp) (Some explain)) = None"
  shows "\<exists>h'. compare_sample_st classifier1 classifier2 explain smp h = (h', Inl TypeError)
           \<and> sorts_only [a1] h h'"
proof -
  define r1 where "r1 = classifier1 (input_of smp) (Some explain)"
  define r2 where "r2 = classifier2 (input_of smp) (Some explain)"
  define h1 where "h1 = fst (normalizeClasses_st h (output_of smp))"
  have "sorts_only [] h h1"
    unfolding h1_def by (rule normalizeClasses_st_frame)
  then have f: "sorts_only ([] @ [a1]) h (sort_in_place h1 a1)"
    using sorts_only_sort by (rule sorts_only_trans)
  have u1: "(if explain \<noteq> 0 then get_classes_st r1 else Inr r1) = Inr (RArr a1)"
    using assms(1) unfolding r1_def by (rule compared_array_unwrap)
  obtain c2 where u2: "(if explain \<noteq> 0 then get_classes_st r2 else Inr r2) = Inr c2"
    and s2: "call_sort_st (sort_in_place h1 a1) c2 = Inl TypeError"
    using unwraps_no_array [of explain r2 "sort_in_place h1 a1"] assms(2,3)
    by (auto simp: r2_def)
  have "compare_sample_st classifier1 classifier2 explain smp h
      = (sort_in_place h1 a1, Inl TypeError)"
    unfolding compare_sample_st_def Let_def split_beta r1_def [symmetric]
      r2_def [symmetric] h1_def [symmetric] u1 u2
    by (simp add: s2)
  with f show ?thesis by auto
qed

lemma compare_sample_st_sorts:
  assumes "compared_array explain (classifier1 (input_of smp) (Some explain)) = Some a1"
    and "compared_array explain (classifier2 (input_of smp) (Some explain)) = Some a2"
  shows "\<exists>h' lines. compare_sample_st classifier1 classifier2 explain smp h = (h', Inr lines)
           \<and> sorts_only [a1, a2] h h'"
proof -
  define r1 where "r1 = classifier1 (input_of smp) (Some explain)"
  define r2 where "r2 = classifier2 (input_of smp) (Some explain)"
  define h1 where "h1 = fst (normalizeClasses_st h (output_of smp))"
  have u1: "(if explain \<noteq> 0 then get_classes_st r1 else Inr r1) = Inr (RArr a1)"
    using assms(1) unfolding r1_def by (rule compared_array_unwrap)
  have u2: "(if explain \<noteq> 0 then get_classes_st r2 else Inr r2) = Inr (RArr a2)"
    using assms(2) unfolding r2_def by (rule compared_array_unwrap)
  have "sorts_only [] h h1"
    unfolding h1_def by (rule normalizeClasses_st_frame)
  then have "sorts_only ([] @ [a1]) h (sort_in_place h1 a1)"
    using sorts_only_sort by (rule sorts_only_trans)
  then have "sorts_only (([] @ [a1]) @ [a2]) h (sort_in_place (sort_in_place h1 a1) a2)"
    using sorts_only_sort by (rule sorts_only_trans)
  moreover have "\<exists>lines. compare_sample_st classifier1 classifier2 explain smp h
      = (sort_in_place (sort_in_place h1 a1) a2, Inr lines)"
    unfolding compare_sample_st_def Let_def split_beta r1_def [symmetric] r2_def [symmetric]
      h1_def [symmetric] u1 u2
    by simp
  ultimately show ?thesis by auto
qed

text \<open>The arrays sorted by a run, whether it returns or throws.\<close>

lemma compare_loop_st_frame:
  "sorts_only (sorted_by_compare classifier1 classifier2 explain dataset) h
     (fst (compare_loop_st classifier1 classifier2 explain dataset h))"
proof (induction dataset arbitrary: h)
  case Nil
  show ?case by (simp add: sorts_only_refl)
next
  case (Cons smp rest)
  let ?r1 = "classifier1 (input_of smp) (Some explain)"
  let ?r2 = "classifier2 (input_of smp) (Some explain)"
  show ?case
  proof (cases "unwraps explain ?r1 \<and> unwraps explain ?r2")
    case False
    then obtain h1
      where "compare_sample_st classifier1 classifier2 explain smp h = (h1, Inl TypeError)"
        and "sorts_only [] h h1"
      using compare_sample_st_no_unwrap
        [where ?classifier1.0 = classifier1 and ?classifier2.0 = classifier2]
      by blast
    with False show ?thesis by simp
  next
    case True
    show ?thesis
    proof (cases "compared_array explain ?r1")
      case None
      with True obtain h1
        where "compare_sample_st classifier1 classifier2 explain smp h = (h1, Inl TypeError)"
          and "sorts_only [] h h1"
        using compare_sample_st_first_throws
          [where ?classifier1.0 = classifier1 and ?classifier2.0 = classifier2]
        by blast
      with True None show ?thesis by simp
    next
      case (Some a1)
      note a1 = Some
      show ?thesis
      proof (cases "compared_array explain ?r2")
        case None
        with True a1 obtain h1
          where "compare_sample_st classifier1 classifier2 explain smp h
                   = (h1, Inl TypeError)"
            and "sorts_only [a1] h h1"
          using compare_sample_st_second_throws
            [where ?classifier1.0 = classifier1 and ?classifier2.0 = classifier2]
          by blast
        with True a1 None show ?thesis by simp
      next
        case (Some a2)
        with a1 obtain h1 lines
          where b: "compare_sample_st classifier1 classifier2 explain smp h = (h1, Inr lines)"
            and f: "sorts_only [a1, a2] h h1"
          using compare_sample_st_sorts
            [where ?classifier1.0 = classifier1 and ?classifier2.0 = classifier2]
          by blast
        have "sorts_only ([a1, a2] @ sorted_by_compare classifier1 classifier2 explain rest) h
           (fst (compare_loop_st classifier1 classifier2 explain rest h1))"
          using f Cons.IH by (rule sorts_only_trans)
        with True a1 Some b show ?thesis
          by (simp add: split_beta)
      qed
    qed
  qed
qed

lemma compare_st_frame:
  "sorts_only (sorted_by_compare classifier1 classifier2 explain dataset) h
     (fst (compare_st classifier1 classifier2 dataset explain h))"
proof -
  have "fst (compare_st classifier1 classifier2 dataset explain h)
      = fst (compare_loop_st classifier1 classifier2 explain dataset h)"
    by (simp add: compare_st_def split: prod.splits option.splits)
  then show ?thesis
    by (simp add: compare_loop_st_frame)
qed

text \<open>When every result has an array to compare, all of them are sorted.\<close>

lemma sorted_by_compare_all:
  assumes "\<forall>smp\<in>set dataset.
      compared_array explain (classifier1 (input_of smp) (Some explain)) \<noteq> None
      \<and> compared_array explain (classifier2 (input_of smp) (Some explain)) \<noteq> None"
  shows "sorted_by_compare classifier1 classifier2 explain dataset
       = compared_arrays classifier1 classifier2 explain dataset"
  using assms
  by (induction dataset) (auto simp: compared_arrays_def compared_array_unwraps)

text \<open>
  C9. \<^verbatim>\<open>testLite\<close> and \<^verbatim>\<open>compare\<close> sort in place the class array that the classifier
  returned, the result itself or the array under its \<^verbatim>\<open>classes\<close>: after a run, whether it
  returned or threw, every such array that the run came to sort holds its elements
  sorted, and every other array that existed before holds its elements as before. When
  every result has its class array these are the class arrays of all the samples.
  \<^verbatim>\<open>normalizeClasses\<close> changes no array that existed before the call, so its argument is
  as it was; its result is a new array, which holds the normalised sequence.
\<close>

theorem sort_in_place_normalize_fresh:
  "(\<forall>a<length h.
       cell (fst (testLite_st R classifier dataset explain h)) a
         = (if a \<in> set (sorted_by_testLite classifier explain dataset)
            then array_sort (cell h a) else cell h a))
   \<and> ((\<forall>smp\<in>set dataset. class_array (classifier (input_of smp) (Some explain)) \<noteq> None)
      \<longrightarrow> sorted_by_testLite classifier explain dataset
            = class_arrays classifier explain dataset)
   \<and> (\<forall>a<length h.
       cell (fst (compare_st classifier1 classifier2 dataset explain h)) a
         = (if a \<in> set (sorted_by_compare classifier1 classifier2 explain dataset)
            then array_sort (cell h a) else cell h a))
   \<and> ((\<forall>smp\<in>set dataset.
          compared_array explain (classifier1 (input_of smp) (Some explain)) \<noteq> None
          \<and> compared_array explain (classifier2 (input_of smp) (Some explain)) \<noteq> None)
      \<longrightarrow> sorted_by_compare classifier1 classifier2 explain dataset
            = compared_arrays classifier1 classifier2 explain dataset)
   \<and> (\<forall>a<length h. cell (fst (normalizeClasses_st h v)) a = cell h a)
   \<and> (\<exists>a. snd (normalizeClasses_st h v) = RArr a \<and> length h \<le> a
            \<and> a < length (fst (normalizeClasses_st h v)))
   \<and> view (fst (normalizeClasses_st h v)) (snd (normalizeClasses_st h v))
       = normalizeClasses (view h v)"
proof -
  have t: "\<forall>a<length h.
       cell (fst (testLite_st R classifier dataset explain h)) a
         = (if a \<in> set (sorted_by_testLite classifier explain dataset)
            then array_sort (cell h a) else cell h a)"
    using testLite_st_frame [of classifier explain dataset h R]
    by (simp add: sorts_only_iff)
  have ta: "sorted_by_testLite classifier explain dataset
            = class_arrays classifier explain dataset"
    if "\<forall>smp\<in>set dataset. class_array (classifier (input_of smp) (Some explain)) \<noteq> None"
    using that by (rule sorted_by_testLite_all)
  have c: "\<forall>a<length h.
       cell (fst (compare_st classifier1 classifier2 dataset explain h)) a
         = (if a \<in> set (sorted_by_compare classifier1 classifier2 explain dataset)
            then array_sort (cell h a) else cell h a)"
    using compare_st_frame [of classifier1 classifier2 explain dataset h]
    by (simp add: sorts_only_iff)
  have ca: "sorted_by_compare classifier1 classifier2 explain dataset
            = compared_arrays classifier1 classifier2 explain dataset"
    if "\<forall>smp\<in>set dataset.
          compared_array explain (classifier1 (input_of smp) (Some explain)) \<noteq> None
          \<and> compared_array explain (classifier2 (input_of smp) (Some explain)) \<noteq> None"
    using that by (rule sorted_by_compare_all)
  have n: "\<forall>a<length h. cell (fst (normalizeClasses_st h v)) a = cell h a"
    using normalizeClasses_st_frame [of h v] by (simp add: sorts_only_iff)
  show ?thesis
    using t ta c ca n normalizeClasses_st_result [of h v] normalizeClasses_st_view [of h v]
    by (intro conjI impI) assumption+
qed

text \<open>
  Runs from a store of two arrays. In the first the classifier returns the second
  array, which ends sorted while the expected output, the first array, is as before.
  In the second the second classifier returns the expected output itself, which ends
  sorted. In the third the second classifier returns a string: the second call of
  \<^verbatim>\<open>sort\<close> throws after the array of the first classifier was sorted.
\<close>

lemma testLite_st_example:
  "testLite_st counting_recorder returns_array_1 [stored_sample_x] 0 store_0
     = ([[JStr ''B'', JStr ''A''], [JStr ''c'', JStr ''d''], [JStr ''A'', JStr ''B'']],
        [[CHR 0x09, CHR 0x22] @ ''x'' @ [CHR 0x22] @ '': expected A,B but got c,d'',
         ''SUMMARY: 0/1''],
        Inr JUndefined)"
  by (simp add: testLite_st_def testLite_sample_st_def normalizeClasses_st_def alloc_def
      sort_in_place_def cell_def store_0_def stored_sample_x_def returns_array_1_def
      stringifyClass_def isString_def array_sort_def Let_def
      counting_recorder_def counting_addCases_def counting_shortStats_def digits.simps
      JSON_stringify_def Quote_def quote_char_def)

lemma compare_st_example:
  "fst (compare_st returns_array_1 returns_output_array [stored_sample_x] 0 store_0)
     = [[JStr ''A'', JStr ''B''], [JStr ''c'', JStr ''d''], [JStr ''A'', JStr ''B'']]"
  by (simp add: compare_st_def compare_sample_st_def normalizeClasses_st_def alloc_def
      sort_in_place_def cell_def store_0_def stored_sample_x_def returns_array_1_def
      returns_output_array_def stringifyClass_def isString_def array_sort_def Let_def)

lemma compare_st_throw_example:
  "compare_st returns_array_1 returns_string [stored_sample_x] 0 store_0
     = ([[JStr ''B'', JStr ''A''], [JStr ''c'', JStr ''d''], [JStr ''A'', JStr ''B'']],
        [], Inl TypeError)"
  by (simp add: compare_st_def compare_sample_st_def normalizeClasses_st_def alloc_def
      sort_in_place_def cell_def store_0_def stored_sample_x_def returns_array_1_def
      returns_string_def stringifyClass_def isString_def array_sort_def Let_def)

theorem sort_in_place_normalize_fresh_witness:
  "sorted_by_testLite returns_array_1 0 [stored_sample_x] = [1]
   \<and> sorted_by_compare returns_array_1 returns_output_array 0 [stored_sample_x] = [1, 0]
   \<and> sorted_by_compare returns_array_1 returns_string 0 [stored_sample_x] = [1]
   \<and> cell store_0 0 = [JStr ''B'', JStr ''A'']
   \<and> cell store_0 1 = [JStr ''d'', JStr ''c'']
   \<and> cell (fst (testLite_st counting_recorder returns_array_1 [stored_sample_x] 0 store_0)) 1
       = array_sort (cell store_0 1)
   \<and> cell (fst (testLite_st counting_recorder returns_array_1 [stored_sample_x] 0 store_0)) 0
       = cell store_0 0
   \<and> cell (fst (compare_st returns_array_1 returns_output_array [stored_sample_x] 0 store_0)) 0
       = array_sort (cell store_0 0)
   \<and> snd (snd (compare_st returns_array_1 returns_string [stored_sample_x] 0 store_0))
       = Inl TypeError
   \<and> cell (fst (compare_st returns_array_1 returns_string [stored_sample_x] 0 store_0)) 1
       = array_sort (cell store_0 1)
   \<and> cell (fst (normalizeClasses_st store_0 (RArr 0))) 0 = cell store_0 0
   \<and> view (fst (normalizeClasses_st store_0 (RArr 0))) (snd (normalizeClasses_st store_0 (RArr 0)))
       = JArr [JStr ''A'', JStr ''B'']"
proof -
  have st: "sorted_by_testLite returns_array_1 0 [stored_sample_x] = [1]"
    by (simp add: returns_array_1_def)
  have sc: "sorted_by_compare returns_array_1 returns_output_array 0 [stored_sample_x] = [1, 0]"
    by (simp add: returns_array_1_def returns_output_array_def unwraps_def)
  have ss: "sorted_by_compare returns_array_1 returns_string 0 [stored_sample_x] = [1]"
    by (simp add: returns_array_1_def returns_string_def unwraps_def)
  have l: "length store_0 = 2"
    by (simp add: store_0_def)
  have c0: "cell store_0 0 = [JStr ''B'', JStr ''A'']"
    and c1: "cell store_0 1 = [JStr ''d'', JStr ''c'']"
    and c1': "cell store_0 (Suc 0) = [JStr ''d'', JStr ''c'']"
    by (simp_all add: store_0_def cell_def)
  have n: "normalizeClasses (JArr [JStr ''B'', JStr ''A'']) = JArr [JStr ''A'', JStr ''B'']"
    by (simp add: normalizeClasses_def isArray_def stringifyClass_def isString_def
        array_sort_def)
  have e: "snd (snd (compare_st returns_array_1 returns_string [stored_sample_x] 0 store_0))
       = Inl TypeError"
    by (simp add: compare_st_throw_example)
  note T = sort_in_place_normalize_fresh
        [where classifier = returns_array_1 and ?classifier1.0 = returns_array_1
           and ?classifier2.0 = returns_output_array and dataset = "[stored_sample_x]"
           and explain = 0 and h = store_0 and R = counting_recorder and v = "RArr 0"]
  note U = sort_in_place_normalize_fresh
        [where classifier = returns_array_1 and ?classifier1.0 = returns_array_1
           and ?classifier2.0 = returns_string and dataset = "[stored_sample_x]"
           and explain = 0 and h = store_0 and R = counting_recorder and v = "RArr 0"]
  have t1: "cell (fst (testLite_st counting_recorder returns_array_1 [stored_sample_x] 0 store_0)) 1
       = array_sort (cell store_0 1)"
    using T [THEN conjunct1, rule_format, of 1, unfolded st l] by simp
  have t0: "cell (fst (testLite_st counting_recorder returns_array_1 [stored_sample_x] 0 store_0)) 0
       = cell store_0 0"
    using T [THEN conjunct1, rule_format, of 0, unfolded st l] by simp
  have k0: "cell (fst (compare_st returns_array_1 returns_output_array [stored_sample_x] 0 store_0)) 0
       = array_sort (cell store_0 0)"
    using T [THEN conjunct2, THEN conjunct2, THEN conjunct1, rule_format, of 0, unfolded sc l]
    by simp
  have u1: "cell (fst (compare_st returns_array_1 returns_string [stored_sample_x] 0 store_0)) 1
       = array_sort (cell store_0 1)"
    using U [THEN conjunct2, THEN conjunct2, THEN conjunct1, rule_format, of 1, unfolded ss l]
    by simp
  have n0: "cell (fst (normalizeClasses_st store_0 (RArr 0))) 0 = cell store_0 0"
    using T [THEN conjunct2, THEN conjunct2, THEN conjunct2, THEN conjunct2, THEN conjunct1,
        rule_format, of 0]
    by (simp add: l)
  have v: "view (fst (normalizeClasses_st store_0 (RArr 0))) (snd (normalizeClasses_st store_0 (RArr 0)))
       = JArr [JStr ''A'', JStr ''B'']"
    using T [THEN conjunct2, THEN conjunct2, THEN conjunct2, THEN conjunct2, THEN conjunct2,
        THEN conjunct2]
    by (simp add: c0 n)
  show ?thesis
    using st sc ss c0 c1 t1 t0 k0 e u1 n0 v by (intro conjI) assumption+
qed

section \<open>The two readings agree\<close>

text \<open>
  The runs over the store and the runs on values write the same lines. A store reached
  in the middle of a run differs from the initial one by sorted arrays only, and
  neither normalisation nor sorting can tell a sorted array from the original.
\<close>

lemma sorts_only_cell:
  assumes "sorts_only as h0 h" and "b < length h0"
  shows "mset (cell h b) = mset (cell h0 b)"
    and "array_sort (cell h b) = array_sort (cell h0 b)"
  using assms by (auto simp: sorts_only_iff array_sort_idem)

lemma view_plain: "plain v \<Longrightarrow> view h v = view h' v"
  by (cases v) simp_all

lemma normalizeClasses_view_sorted:
  assumes "sorts_only as h0 h" and "simple_output h0 v"
  shows "normalizeClasses (view h v) = normalizeClasses (view h0 v)"
proof (cases v)
  case (RArr b)
  with assms(2) have "b < length h0" by simp
  then have "mset (cell h b) = mset (cell h0 b)"
    using assms(1) by (simp add: sorts_only_cell)
  then have "normalizeClasses (JArr (cell h b)) = normalizeClasses (JArr (cell h0 b))"
    by (rule normalizeClasses_mset)
  with RArr show ?thesis by simp
qed (use assms(2) in simp_all)

lemma map_of_view:
  "map_of (map (\<lambda>kv. (fst kv, view h (snd kv))) kvs) k = map_option (view h) (map_of kvs k)"
  by (induction kvs) auto

lemma unwrap_view:
  assumes "class_array r = Some a"
  shows "unwrap_classes (view h r) = JArr (cell h a)"
proof (cases r)
  case (RObj kvs)
  with assms have "map_of kvs ''classes'' = Some (RArr a)"
    by (auto split: option.splits rval.splits)
  with RObj show ?thesis by (simp add: map_of_view)
qed (use assms in simp_all)

lemma is_result_view:
  assumes "class_array r = Some a"
  shows "is_classification_result (view h r)"
proof (cases r)
  case (RObj kvs)
  with assms have "map_of kvs ''classes'' = Some (RArr a)"
    by (auto split: option.splits rval.splits)
  with RObj show ?thesis by (simp add: map_of_view)
qed (use assms in simp_all)

text \<open>
  Reading a simple result after its class array was sorted gives the result of before
  with the sorted array in its place.
\<close>

lemma map_view_plain:
  assumes "\<forall>p\<in>set kvs. plain (snd p)"
  shows "map (\<lambda>kv. (fst kv, view h' (snd kv))) kvs = map (\<lambda>kv. (fst kv, view h (snd kv))) kvs"
proof (rule map_cong [OF refl])
  fix p
  assume "p \<in> set kvs"
  with assms have "plain (snd p)" by blast
  then have "view h' (snd p) = view h (snd p)" by (rule view_plain)
  then show "(fst p, view h' (snd p)) = (fst p, view h (snd p))" by simp
qed

lemma update_classes_view:
  assumes "distinct (map fst kvs)" and "map_of kvs ''classes'' = Some (RArr a)"
    and "list_all (\<lambda>kv. fst kv = ''classes'' \<or> plain (snd kv)) kvs"
    and "cell h' a = xs"
  shows "map (\<lambda>kv. (fst kv, view h' (snd kv))) kvs
       = AList.update ''classes'' (JArr xs) (map (\<lambda>kv. (fst kv, view h (snd kv))) kvs)"
  using assms(1,2,3)
proof (induction kvs)
  case Nil
  then show ?case by simp
next
  case (Cons kv kvs)
  obtain k v where kv: "kv = (k, v)" by (cases kv)
  show ?case
  proof (cases "k = ''classes''")
    case True
    with Cons.prems(2) kv have v: "v = RArr a"
      by simp
    have "\<forall>p\<in>set kvs. fst p \<noteq> ''classes''"
      using Cons.prems(1) True kv by (auto simp: image_iff)
    with Cons.prems(3) have "\<forall>p\<in>set kvs. plain (snd p)"
      by (auto simp: list_all_iff)
    then have "map (\<lambda>kv. (fst kv, view h' (snd kv))) kvs
             = map (\<lambda>kv. (fst kv, view h (snd kv))) kvs"
      by (rule map_view_plain)
    with True v kv assms(4) show ?thesis
      by simp
  next
    case False
    with Cons.prems(3) kv have "plain v"
      by simp
    then have pv: "view h' v = view h v"
      by (rule view_plain)
    from False Cons.prems kv have "distinct (map fst kvs)"
      and "map_of kvs ''classes'' = Some (RArr a)"
      and "list_all (\<lambda>kv. fst kv = ''classes'' \<or> plain (snd kv)) kvs"
      by simp_all
    then have "map (\<lambda>kv. (fst kv, view h' (snd kv))) kvs
       = AList.update ''classes'' (JArr xs) (map (\<lambda>kv. (fst kv, view h (snd kv))) kvs)"
      by (rule Cons.IH)
    with False kv pv show ?thesis
      by simp
  qed
qed

lemma after_sort_view:
  assumes "simple_result h0 r" and "class_array r = Some a" and "cell h' a = xs"
  shows "view h' r = after_sort (view h r) (JArr xs)"
proof (cases r)
  case (RArr b)
  with assms show ?thesis by (simp add: after_sort_def)
next
  case (RObj kvs)
  with assms(2) have m: "map_of kvs ''classes'' = Some (RArr a)"
    by (auto split: option.splits rval.splits)
  from RObj assms(1) have d: "distinct (map fst kvs)"
    and p: "list_all (\<lambda>kv. fst kv = ''classes'' \<or> plain (snd kv)) kvs"
    by simp_all
  have "map (\<lambda>kv. (fst kv, view h' (snd kv))) kvs
       = AList.update ''classes'' (JArr xs) (map (\<lambda>kv. (fst kv, view h (snd kv))) kvs)"
    using d m p assms(3) by (rule update_classes_view)
  with RObj show ?thesis
    by (simp add: after_sort_def)
qed (use assms in simp_all)


lemma simple_result_class_array:
  assumes "simple_result h0 r"
  shows "\<exists>a. class_array r = Some a \<and> a < length h0"
proof (cases r)
  case (RObj kvs)
  with assms have "case map_of kvs ''classes'' of Some (RArr a) \<Rightarrow> a < length h0 | _ \<Rightarrow> False"
    by simp
  then obtain a where "map_of kvs ''classes'' = Some (RArr a)" and "a < length h0"
    by (cases "map_of kvs ''classes''"; simp split: rval.splits)
  with RObj show ?thesis by simp
qed (use assms in simp_all)

lemma sorts_only_sorted_cell:
  "sorts_only as h0 h \<Longrightarrow> a < length h0 \<Longrightarrow> a \<in> set as
     \<Longrightarrow> cell h a = array_sort (cell h0 a)"
  by (simp add: sorts_only_iff)

text \<open>
  One sample of \<^verbatim>\<open>testLite\<close> in a store \<open>h\<close> that differs from \<open>h0\<close> by sorted arrays
  only: the lines and the recorded pair are those of the value reading in \<open>h0\<close>.
\<close>

lemma testLite_sample_st_value:
  assumes inv: "sorts_only as h0 h"
    and res: "simple_result h0 (classifier (input_of smp) (Some explain))"
    and out: "simple_output h0 (output_of smp)"
  shows "\<exists>h' bs. sorts_only bs h0 h'
           \<and> testLite_sample_st classifier explain smp h =
               (h',
                Inr (if lite_expected (sample_value h0 smp)
                          \<noteq> lite_actual (by_value h0 classifier) explain (sample_value h0 smp)
                     then [lite_mismatch_line (by_value h0 classifier) explain
                             (sample_value h0 smp)]
                     else [],
                     lite_expected (sample_value h0 smp),
                     lite_actual (by_value h0 classifier) explain (sample_value h0 smp)))"
proof -
  define r where "r = classifier (input_of smp) (Some explain)"
  define h1 where "h1 = fst (normalizeClasses_st h (output_of smp))"
  define er where "er = snd (normalizeClasses_st h (output_of smp))"
  from res obtain a where a: "class_array r = Some a" and a0: "a < length h0"
    using simple_result_class_array [of h0 r] by (auto simp: r_def)
  define h2 where "h2 = sort_in_place h1 a"
  from a obtain c where c: "get_classes_st r = Inr c"
    and u: "(if truthy_st c then c else r) = RArr a"
    using class_array_unwrap by blast
  have le: "length h0 \<le> length h"
    using inv by (simp add: sorts_only_iff)
  have f1: "sorts_only [] h h1"
    unfolding h1_def by (rule normalizeClasses_st_frame)
  obtain a' where er: "er = RArr a'" and fresh: "length h \<le> a'"
    using normalizeClasses_st_result [of h "output_of smp"] by (auto simp: er_def)
  have ne: "a' \<noteq> a"
    using a0 le fresh by simp
  have inv2: "sorts_only ((as @ []) @ [a]) h0 h2"
    unfolding h2_def
    by (rule sorts_only_trans [OF sorts_only_trans [OF inv f1] sorts_only_sort])
  have "view h1 er = normalizeClasses (view h (output_of smp))"
    unfolding h1_def er_def by (rule normalizeClasses_st_view)
  also have "\<dots> = normalizeClasses (view h0 (output_of smp))"
    using inv out by (rule normalizeClasses_view_sorted)
  finally have e1: "view h1 er = lite_expected (sample_value h0 smp)"
    by (simp add: lite_expected_def sample_value_def)
  have "view h2 er = view h1 er"
    using ne by (simp add: er h2_def cell_sort_in_place)
  with e1 have ex: "view h2 er = lite_expected (sample_value h0 smp)"
    by simp
  have ca: "cell h2 a = array_sort (cell h0 a)"
    using inv2 a0 by (rule sorts_only_sorted_cell) simp
  have ac: "view h2 (RArr a)
              = lite_actual (by_value h0 classifier) explain (sample_value h0 smp)"
    using ca unwrap_view [OF a, of h0]
    by (simp add: lite_actual_def by_value_def sample_value_def r_def)
  have "simple_result h0 r"
    using res by (simp add: r_def)
  then have "view h2 r = after_sort (view h0 r) (JArr (array_sort (cell h0 a)))"
    using a ca by (rule after_sort_view)
  then have pl: "view h2 r
      = after_sort (by_value h0 classifier (input_val (sample_value h0 smp)) (Some explain))
          (lite_actual (by_value h0 classifier) explain (sample_value h0 smp))"
    using ca ac by (simp add: by_value_def sample_value_def r_def)
  have "testLite_sample_st classifier explain smp h =
      (h2,
       Inr (if \<not> isEqual (view h2 er) (view h2 (RArr a))
           then [[CHR 0x09] @ ToString (JSON_stringify (input_of smp) [])
                 @ '': expected '' @ ToString (view h2 er)
                 @ '' but got ''
                 @ (if explain \<noteq> 0
                    then ToString (JSON_stringify (view h2 r) [CHR 0x09])
                    else ToString (view h2 (RArr a)))]
           else [],
           view h2 er, view h2 (RArr a)))"
    unfolding testLite_sample_st_def Let_def split_beta r_def [symmetric] h1_def [symmetric]
      er_def [symmetric] c
    by (simp add: u h2_def)
  also have "\<dots> =
      (h2,
       Inr (if lite_expected (sample_value h0 smp)
                \<noteq> lite_actual (by_value h0 classifier) explain (sample_value h0 smp)
           then [lite_mismatch_line (by_value h0 classifier) explain (sample_value h0 smp)]
           else [],
           lite_expected (sample_value h0 smp),
           lite_actual (by_value h0 classifier) explain (sample_value h0 smp)))"
    unfolding ex ac pl
    by (simp add: lite_mismatch_line_def lite_expected_def lite_actual_def isEqual_normalized
        sample_value_def)
  finally show ?thesis
    using inv2 by blast
qed


lemma simple_result_view:
  "simple_result h0 r \<Longrightarrow> is_classification_result (view h r)"
  using simple_result_class_array is_result_view by blast

lemma testLite_loop_st_value:
  assumes "sorts_only as h0 h"
    and "\<forall>smp\<in>set dataset.
           simple_result h0 (classifier (input_of smp) (Some explain))
           \<and> simple_output h0 (output_of smp)"
  shows "snd (testLite_loop_st R classifier explain dataset h st)
       = testLite_loop R (by_value h0 classifier) explain (map (sample_value h0) dataset) st"
  using assms
proof (induction dataset arbitrary: h st as)
  case Nil
  show ?case by simp
next
  case (Cons smp rest)
  let ?c = "by_value h0 classifier"
  let ?s = "sample_value h0 smp"
  let ?L = "if lite_expected ?s \<noteq> lite_actual ?c explain ?s
            then [lite_mismatch_line ?c explain ?s] else []"
  have res: "simple_result h0 (classifier (input_of smp) (Some explain))"
    and out: "simple_output h0 (output_of smp)"
    using Cons.prems(2) by simp_all
  obtain h' bs where inv': "sorts_only bs h0 h'"
    and st: "testLite_sample_st classifier explain smp h
               = (h', Inr (?L, lite_expected ?s, lite_actual ?c explain ?s))"
    using testLite_sample_st_value [where classifier = classifier, OF Cons.prems(1) res out]
    by blast
  have "is_classification_result (?c (input_val ?s) (Some explain))"
    using res by (simp add: by_value_def sample_value_def simple_result_view)
  then have va: "testLite_sample ?c explain ?s
               = Inr (?L, lite_expected ?s, lite_actual ?c explain ?s)"
    by (rule testLite_sample_result)
  have rest: "\<forall>s\<in>set rest.
           simple_result h0 (classifier (input_of s) (Some explain))
           \<and> simple_output h0 (output_of s)"
    using Cons.prems(2) by simp
  have ih: "snd (testLite_loop_st R classifier explain rest h' st')
       = testLite_loop R ?c explain (map (sample_value h0) rest) st'" for st'
    using inv' rest by (rule Cons.IH)
  show ?case
    by (simp add: st va Let_def split_beta ih [symmetric])
qed

text \<open>
  The two readings of \<^verbatim>\<open>testLite\<close> agree: when every result is simple and every expected
  output is an array of the store or holds no address, the run over the store writes
  the lines, and completes, as the run on the values read in the initial store.
\<close>

lemma testLite_st_value:
  assumes "\<forall>smp\<in>set dataset.
           simple_result h (classifier (input_of smp) (Some explain))
           \<and> simple_output h (output_of smp)"
  shows "snd (testLite_st R classifier dataset explain h)
       = testLite R (by_value h classifier) (map (sample_value h) dataset) explain"
proof -
  have "snd (testLite_loop_st R classifier explain dataset h (newPR R))
       = testLite_loop R (by_value h classifier) explain (map (sample_value h) dataset) (newPR R)"
    using sorts_only_refl assms by (rule testLite_loop_st_value)
  then show ?thesis
    by (simp add: testLite_st_def testLite_def split_beta split: sum.splits prod.splits)
qed


lemma compared_array_class_array:
  assumes "compared_array explain r = Some a"
  shows "class_array r = Some a"
proof (cases r)
  case (RArr b)
  with assms show ?thesis by (simp split: if_splits)
next
  case (RObj kvs)
  with assms show ?thesis by (simp split: if_splits)
qed (use assms in simp_all)

lemma sorted_classes_view:
  assumes "compared_array explain r = Some a"
  shows "sorted_classes explain (view h r) = Inr (JArr (array_sort (cell h a)))"
proof (cases r)
  case (RArr b)
  with assms show ?thesis by (simp add: sorted_classes_def split: if_splits)
next
  case (RObj kvs)
  with assms have "explain \<noteq> 0" and "map_of kvs ''classes'' = Some (RArr a)"
    by (auto split: if_splits option.splits rval.splits)
  with RObj show ?thesis by (simp add: sorted_classes_def map_of_view)
qed (use assms in simp_all)

lemma compare_sample_st_value:
  assumes inv: "sorts_only as h0 h"
    and res1: "simple_result h0 (classifier1 (input_of smp) (Some explain))"
    and res2: "simple_result h0 (classifier2 (input_of smp) (Some explain))"
    and cmp1: "compared_array explain (classifier1 (input_of smp) (Some explain)) = Some a1"
    and cmp2: "compared_array explain (classifier2 (input_of smp) (Some explain)) = Some a2"
    and out: "simple_output h0 (output_of smp)"
  shows "\<exists>h' bs. sorts_only bs h0 h'
           \<and> compare_sample_st classifier1 classifier2 explain smp h
               = (h',
                  compare_sample (by_value h0 classifier1) (by_value h0 classifier2) explain
                    (sample_value h0 smp))"
proof -
  define r1 where "r1 = classifier1 (input_of smp) (Some explain)"
  define r2 where "r2 = classifier2 (input_of smp) (Some explain)"
  define h1 where "h1 = fst (normalizeClasses_st h (output_of smp))"
  define er where "er = snd (normalizeClasses_st h (output_of smp))"
  define h2 where "h2 = sort_in_place h1 a1"
  define h3 where "h3 = sort_in_place h2 a2"
  define s1 where "s1 = JArr (array_sort (cell h0 a1))"
  define s2 where "s2 = JArr (array_sort (cell h0 a2))"
  have c1: "class_array r1 = Some a1" and c2: "class_array r2 = Some a2"
    using cmp1 cmp2 by (simp_all add: r1_def r2_def compared_array_class_array)
  have a1: "a1 < length h0" and a2: "a2 < length h0"
    using simple_result_class_array [OF res1] simple_result_class_array [OF res2] c1 c2
    by (auto simp: r1_def r2_def)
  have u1: "(if explain \<noteq> 0 then get_classes_st r1 else Inr r1) = Inr (RArr a1)"
    and u2: "(if explain \<noteq> 0 then get_classes_st r2 else Inr r2) = Inr (RArr a2)"
    using cmp1 cmp2 by (simp_all only: r1_def r2_def compared_array_unwrap)
  have le: "length h0 \<le> length h"
    using inv by (simp add: sorts_only_iff)
  have f1: "sorts_only [] h h1"
    unfolding h1_def by (rule normalizeClasses_st_frame)
  obtain a' where er: "er = RArr a'" and fresh: "length h \<le> a'"
    using normalizeClasses_st_result [of h "output_of smp"] by (auto simp: er_def)
  have ne: "a' \<noteq> a1" "a' \<noteq> a2"
    using a1 a2 le fresh by simp_all
  have inv3: "sorts_only (((as @ []) @ [a1]) @ [a2]) h0 h3"
    unfolding h3_def h2_def
    by (rule sorts_only_trans
          [OF sorts_only_trans [OF sorts_only_trans [OF inv f1] sorts_only_sort]
              sorts_only_sort])
  have "view h1 er = normalizeClasses (view h (output_of smp))"
    unfolding h1_def er_def by (rule normalizeClasses_st_view)
  also have "\<dots> = normalizeClasses (view h0 (output_of smp))"
    using inv out by (rule normalizeClasses_view_sorted)
  finally have e1: "view h1 er = normalizeClasses (output_val (sample_value h0 smp))"
    by (simp add: sample_value_def)
  have "view h3 er = view h1 er"
    using ne by (simp add: er h3_def h2_def cell_sort_in_place)
  with e1 have ex: "view h3 er = normalizeClasses (output_val (sample_value h0 smp))"
    by simp
  have ca1: "cell h3 a1 = array_sort (cell h0 a1)"
    using inv3 a1 by (rule sorts_only_sorted_cell) simp
  have ca2: "cell h3 a2 = array_sort (cell h0 a2)"
    using inv3 a2 by (rule sorts_only_sorted_cell) simp
  have v1: "view h3 (RArr a1) = s1" and v2: "view h3 (RArr a2) = s2"
    using ca1 ca2 by (simp_all add: s1_def s2_def)
  have "simple_result h0 r1" and "simple_result h0 r2"
    using res1 res2 by (simp_all add: r1_def r2_def)
  then have p1: "view h3 r1 = after_sort (view h0 r1) s1"
    and p2: "view h3 r2 = after_sort (view h0 r2) s2"
    using c1 c2 ca1 ca2 by (simp_all add: s1_def s2_def after_sort_view)
  have sc1: "sorted_classes explain
               (by_value h0 classifier1 (input_val (sample_value h0 smp)) (Some explain))
             = Inr s1"
    and sc2: "sorted_classes explain
               (by_value h0 classifier2 (input_val (sample_value h0 smp)) (Some explain))
             = Inr s2"
    using cmp1 cmp2 by (simp_all add: by_value_def sample_value_def s1_def s2_def
        sorted_classes_view)
  have st: "compare_sample_st classifier1 classifier2 explain smp h =
      (h3,
       Inr (if \<not> isEqual (view h3 (RArr a1)) (view h3 (RArr a2))
           then [[CHR 0x09] @ ToString (JSON_stringify (input_of smp) [])
                 @ '' : classes1=''
                 @ (if explain \<noteq> 0
                    then ToString (JSON_stringify (view h3 r1) [CHR 0x09])
                    else ToString (view h3 (RArr a1)))
                 @ '' ; classes2=''
                 @ (if explain \<noteq> 0
                    then ToString (JSON_stringify (view h3 r2) [CHR 0x09])
                    else ToString (view h3 (RArr a2)))
                 @ [],
                 if isEqual (view h3 (RArr a1)) (view h3 er)
                 then [CHR 0x09, CHR 0x09] @ ''Classifier1 is correct''
                 else if isEqual (view h3 (RArr a2)) (view h3 er)
                 then [CHR 0x09, CHR 0x09] @ ''Classifier2 is correct''
                 else [CHR 0x09, CHR 0x09] @ ''both are incorrect'']
           else []))"
    unfolding compare_sample_st_def Let_def split_beta r1_def [symmetric] r2_def [symmetric]
      h1_def [symmetric] er_def [symmetric] u1 u2
    by (simp add: h2_def h3_def)
  have "compare_sample_st classifier1 classifier2 explain smp h
      = (h3,
         compare_sample (by_value h0 classifier1) (by_value h0 classifier2) explain
           (sample_value h0 smp))"
    unfolding st v1 v2 ex p1 p2
      compare_sample_sorted
        [where ?classifier1.0 = "by_value h0 classifier1"
           and ?classifier2.0 = "by_value h0 classifier2", OF sc1 sc2]
    by (simp add: by_value_def sample_value_def r1_def r2_def)
  with inv3 show ?thesis by blast
qed


lemma compare_loop_st_value:
  assumes "sorts_only as h0 h"
    and "\<forall>smp\<in>set dataset.
           simple_result h0 (classifier1 (input_of smp) (Some explain))
           \<and> simple_result h0 (classifier2 (input_of smp) (Some explain))
           \<and> compared_array explain (classifier1 (input_of smp) (Some explain)) \<noteq> None
           \<and> compared_array explain (classifier2 (input_of smp) (Some explain)) \<noteq> None
           \<and> simple_output h0 (output_of smp)"
  shows "snd (compare_loop_st classifier1 classifier2 explain dataset h)
       = compare_loop (by_value h0 classifier1) (by_value h0 classifier2) explain
           (map (sample_value h0) dataset)"
  using assms
proof (induction dataset arbitrary: h as)
  case Nil
  show ?case by simp
next
  case (Cons smp rest)
  let ?c1 = "by_value h0 classifier1"
  let ?c2 = "by_value h0 classifier2"
  from Cons.prems(2) obtain a1 a2
    where res1: "simple_result h0 (classifier1 (input_of smp) (Some explain))"
      and res2: "simple_result h0 (classifier2 (input_of smp) (Some explain))"
      and cmp1: "compared_array explain (classifier1 (input_of smp) (Some explain)) = Some a1"
      and cmp2: "compared_array explain (classifier2 (input_of smp) (Some explain)) = Some a2"
      and out: "simple_output h0 (output_of smp)"
    by auto
  obtain h' bs where inv': "sorts_only bs h0 h'"
    and st: "compare_sample_st classifier1 classifier2 explain smp h
               = (h', compare_sample ?c1 ?c2 explain (sample_value h0 smp))"
    using compare_sample_st_value
      [where ?classifier1.0 = classifier1 and ?classifier2.0 = classifier2,
       OF Cons.prems(1) res1 res2 cmp1 cmp2 out]
    by blast
  have rest: "\<forall>s\<in>set rest.
           simple_result h0 (classifier1 (input_of s) (Some explain))
           \<and> simple_result h0 (classifier2 (input_of s) (Some explain))
           \<and> compared_array explain (classifier1 (input_of s) (Some explain)) \<noteq> None
           \<and> compared_array explain (classifier2 (input_of s) (Some explain)) \<noteq> None
           \<and> simple_output h0 (output_of s)"
    using Cons.prems(2) by simp
  have ih: "snd (compare_loop_st classifier1 classifier2 explain rest h')
       = compare_loop ?c1 ?c2 explain (map (sample_value h0) rest)"
    using inv' rest by (rule Cons.IH)
  show ?case
    by (cases "compare_sample ?c1 ?c2 explain (sample_value h0 smp)")
       (simp_all add: st split_beta ih [symmetric])
qed

text \<open>The two readings of \<^verbatim>\<open>compare\<close> agree, under the same conditions.\<close>

lemma compare_st_value:
  assumes "\<forall>smp\<in>set dataset.
           simple_result h (classifier1 (input_of smp) (Some explain))
           \<and> simple_result h (classifier2 (input_of smp) (Some explain))
           \<and> compared_array explain (classifier1 (input_of smp) (Some explain)) \<noteq> None
           \<and> compared_array explain (classifier2 (input_of smp) (Some explain)) \<noteq> None
           \<and> simple_output h (output_of smp)"
  shows "snd (compare_st classifier1 classifier2 dataset explain h)
       = compare (by_value h classifier1) (by_value h classifier2)
           (map (sample_value h) dataset) explain"
proof -
  have "snd (compare_loop_st classifier1 classifier2 explain dataset h)
       = compare_loop (by_value h classifier1) (by_value h classifier2) explain
           (map (sample_value h) dataset)"
    using sorts_only_refl assms by (rule compare_loop_st_value)
  then show ?thesis
    by (simp add: compare_st_def compare_def split_beta split: option.splits prod.splits)
qed

end
